theory Spec2Isabelle
  imports
    Complex_Main
    "HOL-Library.Sublist"
    "HOL-Library.Char_ord"
    "HOL-Library.List_Lexorder"
begin

section \<open>Data model\<close>

text \<open>
  The dashboard script works on pandas data frames. A float64 value is either a
  finite number or NaN, the value pandas uses for "missing"; finite values are taken
  as exact reals. The infinities are outside this development, and so is rounding,
  except where a claim depends on it: the arithmetic of the correlation coefficient is
  a parameter.
\<close>

datatype pyfloat = Fin real | NaN

text \<open>A timestamp of the daily data: a calendar day (the time of day is not modelled).\<close>

datatype date = Date (d_year: int) (d_month: int) (d_day: int)

text \<open>
  One cell of a frame. \<open>CStr\<close>, \<open>CInt\<close>, \<open>CFloat\<close> and \<open>CBool\<close> are what
  \<^verbatim>\<open>pd.read_csv\<close> produces (a blank field is \<open>CFloat NaN\<close>); \<open>CDate\<close> and \<open>CNaT\<close>
  are what \<^verbatim>\<open>pd.to_datetime\<close> produces.
\<close>

datatype cell = CStr string | CInt int | CFloat pyfloat | CBool bool | CDate date | CNaT

datatype error = KeyError | TypeError | ParseError | ReError | FileError | NameError

text \<open>
  A row maps column names to cells; a frame holds the ordered column names and the
  rows, each with its index label. A series is one column with the index labels.
\<close>

type_synonym row = "string \<rightharpoonup> cell"

record frame =
  columns :: "string list"
  rows :: "(nat \<times> row) list"

type_synonym series = "(nat \<times> cell option) list"

text \<open>\<^verbatim>\<open>df[name]\<close>: the column, or KeyError when the frame has no such column.\<close>

definition getitem :: "frame \<Rightarrow> string \<Rightarrow> error + series" where
  "getitem df name =
     (if name \<in> set (columns df) then Inr (map (\<lambda>(i, r). (i, r name)) (rows df))
      else Inl KeyError)"

text \<open>
  \<^verbatim>\<open>df[name] = f(df)\<close> for a value computed row by row from the frame itself: an existing
  column is replaced where it stands, a new one is appended.
\<close>

definition assign :: "string \<Rightarrow> (row \<Rightarrow> cell) \<Rightarrow> frame \<Rightarrow> frame" where
  "assign name f df =
     \<lparr>columns = (if name \<in> set (columns df) then columns df else columns df @ [name]),
      rows = map (\<lambda>(i, r). (i, r(name \<mapsto> f r))) (rows df)\<rparr>"

text \<open>\<^verbatim>\<open>df[mask]\<close>: the rows whose mask entry is True, in their order, labels kept.\<close>

definition boolean_index :: "frame \<Rightarrow> bool list \<Rightarrow> frame" where
  "boolean_index df keep =
     \<lparr>columns = columns df, rows = map fst (filter snd (zip (rows df) keep))\<rparr>"

text \<open>\<^verbatim>\<open>Series.isin(values)\<close> for a list of integers: one truth value per row.\<close>

fun cell_isin :: "cell option \<Rightarrow> int list \<Rightarrow> bool" where
  "cell_isin (Some (CInt n)) vs = (n \<in> set vs)"
| "cell_isin (Some (CFloat (Fin x))) vs = (x \<in> real_of_int ` set vs)"
| "cell_isin _ vs = False"

definition isin :: "series \<Rightarrow> int list \<Rightarrow> bool list" where
  "isin s vs = map (\<lambda>(i, c). cell_isin c vs) s"

section \<open>Calendar fields of a timestamp\<close>

text \<open>
  pandas computes the day of the week by Sakamoto's method and shifts it so that
  Monday is 0. The month of a timestamp is always in 1 .. 12, so the table lookup is
  in range for every date that \<open>valid_date\<close> accepts.
\<close>

definition sakamoto_arr :: "int list" where
  "sakamoto_arr = [0, 3, 2, 5, 0, 3, 5, 1, 4, 6, 2, 4]"

definition dayofweek :: "date \<Rightarrow> int" where
  "dayofweek dt =
     (let y = (if d_month dt < 3 then d_year dt - 1 else d_year dt);
          day = (y + y div 4 - y div 100 + y div 400 + sakamoto_arr ! nat (d_month dt - 1)
                 + d_day dt) mod 7
      in (day + 6) mod 7)"

definition DAYS :: "string list" where
  "DAYS = [''Monday'', ''Tuesday'', ''Wednesday'', ''Thursday'', ''Friday'', ''Saturday'',
           ''Sunday'']"

definition day_name :: "date \<Rightarrow> string" where
  "day_name d = DAYS ! nat (dayofweek d)"

definition quarter_of :: "date \<Rightarrow> int" where
  "quarter_of d = (d_month d - 1) div 3 + 1"

definition is_leap :: "int \<Rightarrow> bool" where
  "is_leap y = (y mod 4 = 0 \<and> (y mod 100 \<noteq> 0 \<or> y mod 400 = 0))"

definition days_in_month :: "int \<Rightarrow> int \<Rightarrow> int" where
  "days_in_month y m =
     (if m = 2 then (if is_leap y then 29 else 28)
      else if m \<in> {4, 6, 9, 11} then 30 else 31)"

definition valid_date :: "date \<Rightarrow> bool" where
  "valid_date dt =
     (1 \<le> d_year dt \<and> d_year dt \<le> 9999 \<and> 1 \<le> d_month dt \<and> d_month dt \<le> 12 \<and>
      1 \<le> d_day dt \<and> d_day dt \<le> days_in_month (d_year dt) (d_month dt))"

text \<open>
  The \<^verbatim>\<open>.dt\<close> accessors of the \<open>period\<close> column. On NaT the numeric fields are NaN and
  the day name is missing. A numeric field column that holds a NaN is a float64 column,
  so the fields of its dated rows are floats as well: \<open>holds_nat\<close> tells whether the
  \<open>period\<close> column has a row without a date, and \<open>int_field\<close> is the cell of a whole
  number in a column that is a float column or not.
\<close>

definition holds_nat :: "frame \<Rightarrow> bool" where
  "holds_nat df =
     list_ex (\<lambda>(i, r). case r ''period'' of Some (CDate d) \<Rightarrow> False | _ \<Rightarrow> True) (rows df)"

definition int_field :: "bool \<Rightarrow> int \<Rightarrow> cell" where
  "int_field as_float n = (if as_float then CFloat (Fin (real_of_int n)) else CInt n)"

fun dt_month :: "bool \<Rightarrow> cell option \<Rightarrow> cell" where
  "dt_month as_float (Some (CDate d)) = int_field as_float (d_month d)"
| "dt_month as_float _ = CFloat NaN"

fun dt_year :: "bool \<Rightarrow> cell option \<Rightarrow> cell" where
  "dt_year as_float (Some (CDate d)) = int_field as_float (d_year d)"
| "dt_year as_float _ = CFloat NaN"

fun dt_day_name :: "cell option \<Rightarrow> cell" where
  "dt_day_name (Some (CDate d)) = CStr (day_name d)"
| "dt_day_name _ = CFloat NaN"

fun dt_dayofweek :: "bool \<Rightarrow> cell option \<Rightarrow> cell" where
  "dt_dayofweek as_float (Some (CDate d)) = int_field as_float (dayofweek d)"
| "dt_dayofweek as_float _ = CFloat NaN"

fun dt_quarter :: "bool \<Rightarrow> cell option \<Rightarrow> cell" where
  "dt_quarter as_float (Some (CDate d)) = int_field as_float (quarter_of d)"
| "dt_quarter as_float _ = CFloat NaN"

section \<open>Loading: the derived calendar columns\<close>

text \<open>
  \<^verbatim>\<open>pd.to_datetime\<close> is the library's parser and is a parameter here: \<open>to_dt c\<close> is
  \<open>Some\<close> of the timestamp cell (\<open>CDate\<close> or \<open>CNaT\<close>) that pandas makes of the cell \<open>c\<close>,
  and \<open>None\<close> when pandas raises. Line 95 of the script replaces the \<open>period\<close> column by
  its parsed form; one cell that does not parse fails the whole load.
\<close>

fun to_datetime_rows :: "(cell \<Rightarrow> cell option) \<Rightarrow> (nat \<times> row) list \<Rightarrow> error + (nat \<times> row) list"
  where
  "to_datetime_rows to_dt [] = Inr []"
| "to_datetime_rows to_dt ((i, r) # rs) =
     (case to_dt (case r ''period'' of Some c \<Rightarrow> c | None \<Rightarrow> CFloat NaN) of
        None \<Rightarrow> Inl ParseError
      | Some t \<Rightarrow>
         (case to_datetime_rows to_dt rs of
            Inl e \<Rightarrow> Inl e
          | Inr rs' \<Rightarrow> Inr ((i, r(''period'' \<mapsto> t)) # rs')))"

definition parse_period :: "(cell \<Rightarrow> cell option) \<Rightarrow> frame \<Rightarrow> error + frame" where
  "parse_period to_dt df =
     (if ''period'' \<notin> set (columns df) then Inl KeyError
      else case to_datetime_rows to_dt (rows df) of
             Inl e \<Rightarrow> Inl e
           | Inr rs \<Rightarrow> Inr (df\<lparr>rows := rs\<rparr>))"

text \<open>Lines 96 to 99: month, year, dayofweek (the day's name) and is_weekend.\<close>

definition add_calendar_columns :: "frame \<Rightarrow> frame" where
  "add_calendar_columns df =
     assign ''is_weekend''
         (\<lambda>r. CBool (cell_isin (Some (dt_dayofweek (holds_nat df) (r ''period''))) [5, 6]))
       (assign ''dayofweek'' (\<lambda>r. dt_day_name (r ''period''))
         (assign ''year'' (\<lambda>r. dt_year (holds_nat df) (r ''period''))
           (assign ''month'' (\<lambda>r. dt_month (holds_nat df) (r ''period'')) df)))"

definition derive_columns :: "(cell \<Rightarrow> cell option) \<Rightarrow> frame \<Rightarrow> error + frame" where
  "derive_columns to_dt df =
     (case parse_period to_dt df of
        Inl e \<Rightarrow> Inl e
      | Inr df' \<Rightarrow> Inr (add_calendar_columns df'))"

section \<open>Filter stage\<close>

text \<open>Lines 116 and 117: \<^verbatim>\<open>df[df['year'].isin(year_filter)]\<close>.\<close>

definition filterByYears :: "frame \<Rightarrow> int list \<Rightarrow> error + frame" where
  "filterByYears df year_filter =
     (case getitem df ''year'' of
        Inl e \<Rightarrow> Inl e
      | Inr ys \<Rightarrow> Inr (boolean_index df (isin ys year_filter)))"

section \<open>Metrics stage\<close>

text \<open>
  The numeric view of a column that the reductions work on: integers and booleans
  become floats, a missing cell is NaN, and a text or timestamp cell makes the
  reduction raise TypeError.
\<close>

fun to_float :: "cell option \<Rightarrow> error + pyfloat" where
  "to_float None = Inr NaN"
| "to_float (Some (CInt n)) = Inr (Fin (real_of_int n))"
| "to_float (Some (CFloat x)) = Inr x"
| "to_float (Some (CBool b)) = Inr (Fin (if b then 1 else 0))"
| "to_float (Some (CStr s)) = Inl TypeError"
| "to_float (Some (CDate d)) = Inl TypeError"
| "to_float (Some CNaT) = Inl TypeError"

fun numeric :: "series \<Rightarrow> error + pyfloat list" where
  "numeric [] = Inr []"
| "numeric ((i, c) # s) =
     (case to_float c of
        Inl e \<Rightarrow> Inl e
      | Inr x \<Rightarrow> (case numeric s of Inl e \<Rightarrow> Inl e | Inr xs \<Rightarrow> Inr (x # xs)))"

text \<open>The reductions skip NaN (\<^verbatim>\<open>skipna=True\<close>); with nothing left, mean and max are NaN.\<close>

fun finite_values :: "pyfloat list \<Rightarrow> real list" where
  "finite_values [] = []"
| "finite_values (Fin x # vs) = x # finite_values vs"
| "finite_values (NaN # vs) = finite_values vs"

definition series_mean :: "pyfloat list \<Rightarrow> pyfloat" where
  "series_mean vs =
     (let xs = finite_values vs
      in if xs = [] then NaN else Fin (sum_list xs / real (length xs)))"

definition series_max :: "pyfloat list \<Rightarrow> pyfloat" where
  "series_max vs = (case finite_values vs of [] \<Rightarrow> NaN | x # xs \<Rightarrow> Fin (fold max xs x))"

definition series_sum :: "pyfloat list \<Rightarrow> pyfloat" where
  "series_sum vs = Fin (sum_list (finite_values vs))"

text \<open>\<^verbatim>\<open>df['ratio'].mean()\<close> and \<^verbatim>\<open>df['ratio'].max()\<close> of lines 126 to 134.\<close>

definition reduce_column :: "(pyfloat list \<Rightarrow> pyfloat) \<Rightarrow> frame \<Rightarrow> string \<Rightarrow> error + pyfloat" where
  "reduce_column red df name =
     (case getitem df name of
        Inl e \<Rightarrow> Inl e
      | Inr s \<Rightarrow> (case numeric s of Inl e \<Rightarrow> Inl e | Inr vs \<Rightarrow> Inr (red vs)))"

definition ratio_mean :: "frame \<Rightarrow> error + pyfloat" where
  "ratio_mean df = reduce_column series_mean df ''ratio''"

definition ratio_max :: "frame \<Rightarrow> error + pyfloat" where
  "ratio_max df = reduce_column series_max df ''ratio''"

text \<open>
  The format specs \<^verbatim>\<open>.2f\<close>, \<^verbatim>\<open>.1f\<close> and \<^verbatim>\<open>.3f\<close> of the metric cards. Python prints NaN
  as \<^verbatim>\<open>nan\<close>; the digits of a finite float are the library's business (\<open>fixed\<close>, a
  parameter: number of decimals and value to text).
\<close>

fun format_f :: "(nat \<Rightarrow> real \<Rightarrow> string) \<Rightarrow> nat \<Rightarrow> pyfloat \<Rightarrow> string" where
  "format_f fixed p NaN = ''nan''"
| "format_f fixed p (Fin x) = fixed p x"

definition metric_text ::
  "(nat \<Rightarrow> real \<Rightarrow> string) \<Rightarrow> nat \<Rightarrow> error + pyfloat \<Rightarrow> error + string" where
  "metric_text fixed p v = (case v of Inl e \<Rightarrow> Inl e | Inr x \<Rightarrow> Inr (format_f fixed p x))"

section \<open>Aggregation stage\<close>

text \<open>
  \<^verbatim>\<open>df.groupby(key)[val].agg()\<close>: the group labels are the distinct non-missing values of
  the key column in sorted order; each carries the reduction of the value cells of its
  rows. \<open>label_of\<close> reads a label off a key cell (\<open>None\<close> for a missing key, which
  groupby drops).
\<close>

definition groupby ::
  "(cell option \<Rightarrow> 'k::linorder option) \<Rightarrow> (pyfloat list \<Rightarrow> pyfloat) \<Rightarrow> series \<Rightarrow> pyfloat list
     \<Rightarrow> ('k \<times> pyfloat) list" where
  "groupby label_of red ks vs =
     (let kv = zip (map (\<lambda>(i, c). label_of c) ks) vs;
          labels = sort (remdups (List.map_filter fst kv))
      in map (\<lambda>l. (l, red (map snd (filter (\<lambda>(k, v). k = Some l) kv)))) labels)"

fun str_label :: "cell option \<Rightarrow> string option" where
  "str_label (Some (CStr s)) = Some s"
| "str_label _ = None"

fun int_label :: "cell option \<Rightarrow> int option" where
  "int_label (Some (CInt n)) = Some n"
| "int_label _ = None"

text \<open>\<^verbatim>\<open>Series.reindex(labels)\<close>: one entry per label, NaN where the label has no group.\<close>

definition reindex :: "'k list \<Rightarrow> ('k \<times> pyfloat) list \<Rightarrow> ('k \<times> pyfloat) list" where
  "reindex labels g = map (\<lambda>l. (l, case map_of g l of Some v \<Rightarrow> v | None \<Rightarrow> NaN)) labels"

text \<open>
  \<^verbatim>\<open>reset_index()\<close> of a labelled series: a frame with the labels as a column \<open>key\<close>, the
  values as a column \<open>val\<close> and the index 0, 1, ...
\<close>

definition reset_index ::
  "string \<Rightarrow> string \<Rightarrow> ('k \<Rightarrow> cell) \<Rightarrow> ('k \<times> pyfloat) list \<Rightarrow> frame" where
  "reset_index key val cell_of g =
     \<lparr>columns = [key, val],
      rows = enumerate 0 (map (\<lambda>(l, v). [key \<mapsto> cell_of l, val \<mapsto> CFloat v]) g)\<rparr>"

text \<open>Line 184: the mean ratio per day name, reindexed to Monday .. Sunday.\<close>

definition day_avg :: "frame \<Rightarrow> error + frame" where
  "day_avg df =
     (case getitem df ''dayofweek'' of
        Inl e \<Rightarrow> Inl e
      | Inr ks \<Rightarrow>
         (case getitem df ''ratio'' of
            Inl e \<Rightarrow> Inl e
          | Inr s \<Rightarrow>
             (case numeric s of
                Inl e \<Rightarrow> Inl e
              | Inr vs \<Rightarrow>
                  Inr (reset_index ''dayofweek'' ''ratio'' CStr
                        (reindex DAYS (groupby str_label series_mean ks vs))))))"

section \<open>Correlation metric\<close>

text \<open>
  \<^verbatim>\<open>a.corr(b)\<close> first aligns the two series on their index labels (inner join): a value
  of \<open>a\<close> is paired with the value of \<open>b\<close> that carries the same label.
\<close>

definition align_inner :: "series \<Rightarrow> series \<Rightarrow> (cell option \<times> cell option) list" where
  "align_inner a b =
     concat (map (\<lambda>(i, x). map (\<lambda>(j, y). (x, y)) (filter (\<lambda>(j, y). j = i) b)) a)"

fun numeric_pairs :: "(cell option \<times> cell option) list \<Rightarrow> error + (pyfloat \<times> pyfloat) list" where
  "numeric_pairs [] = Inr []"
| "numeric_pairs ((x, y) # ps) =
     (case to_float x of
        Inl e \<Rightarrow> Inl e
      | Inr u \<Rightarrow>
         (case to_float y of
            Inl e \<Rightarrow> Inl e
          | Inr v \<Rightarrow>
             (case numeric_pairs ps of Inl e \<Rightarrow> Inl e | Inr qs \<Rightarrow> Inr ((u, v) # qs))))"

text \<open>Pairs with a NaN on either side are dropped before the coefficient is computed.\<close>

fun finite_pairs :: "(pyfloat \<times> pyfloat) list \<Rightarrow> (real \<times> real) list" where
  "finite_pairs [] = []"
| "finite_pairs ((Fin x, Fin y) # ps) = (x, y) # finite_pairs ps"
| "finite_pairs (_ # ps) = finite_pairs ps"

text \<open>
  The coefficient of the pairs that are left is \<^verbatim>\<open>np.corrcoef(x, y)[0, 1]\<close>. With no
  pair pandas returns NaN without calling numpy, and with one pair numpy multiplies
  zeros by \<open>1 / (n - 1)\<close>, which is infinite, and gives NaN. From two pairs on the value
  is the result of numpy's float64 arithmetic, a parameter: \<open>corrcoef ps\<close> is the float
  that numpy returns for the pairs \<open>ps\<close>.
\<close>

definition pearson :: "((real \<times> real) list \<Rightarrow> pyfloat) \<Rightarrow> (real \<times> real) list \<Rightarrow> pyfloat" where
  "pearson corrcoef ps = (if length ps < 2 then NaN else corrcoef ps)"

definition series_corr ::
  "((real \<times> real) list \<Rightarrow> pyfloat) \<Rightarrow> series \<Rightarrow> series \<Rightarrow> error + pyfloat" where
  "series_corr corrcoef a b =
     (let ps = align_inner a b
      in if ps = [] then Inr NaN
         else case numeric_pairs ps of
                Inl e \<Rightarrow> Inl e
              | Inr qs \<Rightarrow> Inr (pearson corrcoef (finite_pairs qs)))"

text \<open>Line 138: \<^verbatim>\<open>df_s_filtered['ratio'].corr(df_g_filtered['ratio'])\<close>.\<close>

definition headline_corr ::
  "((real \<times> real) list \<Rightarrow> pyfloat) \<Rightarrow> frame \<Rightarrow> frame \<Rightarrow> error + pyfloat" where
  "headline_corr corrcoef s g =
     (case getitem s ''ratio'' of
        Inl e \<Rightarrow> Inl e
      | Inr a \<Rightarrow>
         (case getitem g ''ratio'' of Inl e \<Rightarrow> Inl e | Inr b \<Rightarrow> series_corr corrcoef a b))"

text \<open>
  An instance of \<open>corrcoef\<close> for the examples: what numpy evaluates, the covariance
  (divisor \<open>n - 1\<close>) divided by the square root of each variance and clipped to
  \<open>[-1, 1]\<close>, in exact arithmetic. It is numpy's result where no step rounds (whole
  values with whole means and variances that are squares), and is applied to such
  pairs only; where a step rounds, numpy's result need not be this value, and a
  constant column need not give NaN.
\<close>

definition corrcoef_exact :: "(real \<times> real) list \<Rightarrow> pyfloat" where
  "corrcoef_exact ps =
     (let n = real (length ps);
          mx = sum_list (map fst ps) / n;
          my = sum_list (map snd ps) / n;
          cxx = sum_list (map (\<lambda>(x, y). (x - mx) * (x - mx)) ps) / (n - 1);
          cyy = sum_list (map (\<lambda>(x, y). (y - my) * (y - my)) ps) / (n - 1);
          cxy = sum_list (map (\<lambda>(x, y). (x - mx) * (y - my)) ps) / (n - 1)
      in if cxx = 0 \<or> cyy = 0 then NaN
         else Fin (max (- 1) (min 1 (cxy / sqrt cxx / sqrt cyy))))"

section \<open>The table behind the scatter plot\<close>

text \<open>
  Line 207: \<^verbatim>\<open>pd.merge\<close> of the columns \<open>period\<close> and \<open>ratio\<close> of the two filtered tables
  with \<^verbatim>\<open>on='period', suffixes=('_s', '_g')\<close>, an inner join on \<open>period\<close> (selecting a
  column that a table lacks raises KeyError). The rows are listed here in the order of
  the left table; which order pandas gives them is not used below.
\<close>

definition join_row :: "row \<Rightarrow> row \<Rightarrow> row" where
  "join_row l r =
     Map.empty(''period'' := l ''period'', ''ratio_s'' := l ''ratio'', ''ratio_g'' := r ''ratio'')"

definition merge_on_period :: "frame \<Rightarrow> frame \<Rightarrow> error + frame" where
  "merge_on_period s g =
     (if ''period'' \<in> set (columns s) \<and> ''ratio'' \<in> set (columns s) \<and>
         ''period'' \<in> set (columns g) \<and> ''ratio'' \<in> set (columns g)
      then Inr \<lparr>columns = [''period'', ''ratio_s'', ''ratio_g''],
                rows = enumerate 0
                  (concat (map (\<lambda>(i, l).
                     map (\<lambda>(j, r). join_row l r)
                       (filter (\<lambda>(j, r). r ''period'' = l ''period'') (rows g)))
                     (rows s)))\<rparr>
      else Inl KeyError)"

section \<open>Dataset locator and loader\<close>

text \<open>
  What the loader sees of the file system: which paths exist, the entry names of a
  directory in the order in which the operating system enumerates them (the order
  \<^verbatim>\<open>glob.glob\<close> keeps), and the frame \<^verbatim>\<open>pd.read_csv\<close> parses from a path (\<open>None\<close> when
  it raises). Paths and names are byte strings (UTF-8); byte-wise comparison orders
  them as Python orders the decoded strings.
\<close>

record filesystem =
  fs_exists :: "string \<Rightarrow> bool"
  fs_listdir :: "string \<Rightarrow> string list"
  fs_read_csv :: "string \<Rightarrow> frame option"

text \<open>
  \<^verbatim>\<open>fnmatch\<close> of a name against a pattern in which only \<open>*\<close> is special (the two patterns
  of the loader contain no \<open>?\<close> and no bracket).
\<close>

fun fnmatch :: "string \<Rightarrow> string \<Rightarrow> bool" where
  "fnmatch [] [] = True"
| "fnmatch (c # cs) [] = False"
| "fnmatch [] (p # ps) = (p = CHR ''*'' \<and> fnmatch [] ps)"
| "fnmatch (c # cs) (p # ps) =
     (if p = CHR ''*'' then fnmatch (c # cs) ps \<or> fnmatch cs (p # ps)
      else c = p \<and> fnmatch cs ps)"

definition ishidden :: "string \<Rightarrow> bool" where
  "ishidden name = (case name of [] \<Rightarrow> False | c # cs \<Rightarrow> c = CHR ''.'')"

definition os_path_join :: "string \<Rightarrow> string \<Rightarrow> string" where
  "os_path_join d name = d @ ''/'' @ name"

text \<open>
  \<^verbatim>\<open>glob.glob(os.path.join(dirname, pattern))\<close> for a directory name without wildcards:
  the matching entries in enumeration order, unsorted, each joined to the directory.
\<close>

definition glob_glob :: "filesystem \<Rightarrow> string \<Rightarrow> string \<Rightarrow> string list" where
  "glob_glob fs dirname pattern =
     map (os_path_join dirname)
       (filter (\<lambda>name. fnmatch name pattern)
         (filter (\<lambda>name. ishidden pattern \<or> \<not> ishidden name) (fs_listdir fs dirname)))"

definition possible_paths :: "string list" where
  "possible_paths = [''data'', ''naverapieda/data'']"

text \<open>The brand name of the file patterns, U+C124 U+BE59, in UTF-8.\<close>

definition sulbing :: string where
  "sulbing = [CHR 0xEC, CHR 0x84, CHR 0xA4, CHR 0xEB, CHR 0xB9, CHR 0x99]"

text \<open>The word after the blank in the second pattern, U+AE30 U+D504 U+D2F0 U+CF58.\<close>

definition gifticon :: string where
  "gifticon = [CHR 0xEA, CHR 0xB8, CHR 0xB0, CHR 0xED, CHR 0x94, CHR 0x84,
               CHR 0xED, CHR 0x8B, CHR 0xB0, CHR 0xEC, CHR 0xBD, CHR 0x98]"

definition s_pattern :: string where
  "s_pattern = sulbing @ ''_search_trend_*.csv''"

definition g_pattern :: string where
  "g_pattern = sulbing @ '' '' @ gifticon @ ''_search_trend_*.csv''"

text \<open>
  \<^verbatim>\<open>load_sulbing_data\<close>: \<open>Inr None\<close> is the return \<^verbatim>\<open>(None, None)\<close>, \<open>Inl\<close> an exception.
  The file loaded for each series is the last element of its glob result,
  \<^verbatim>\<open>s_files[-1]\<close> and \<^verbatim>\<open>g_files[-1]\<close>; the comment above these two lines of the script
  reads "load the most recent file". The cache decorator of the function plays no role
  for a single call.
\<close>

definition load_sulbing_data ::
  "(cell \<Rightarrow> cell option) \<Rightarrow> filesystem \<Rightarrow> error + (frame \<times> frame) option" where
  "load_sulbing_data to_dt fs =
     (case find (fs_exists fs) possible_paths of
        None \<Rightarrow> Inr None
      | Some data_dir \<Rightarrow>
         (let s_files = glob_glob fs data_dir s_pattern;
              g_files = glob_glob fs data_dir g_pattern
          in if s_files = [] \<or> g_files = [] then Inr None
             else
               (case fs_read_csv fs (last s_files) of
                  None \<Rightarrow> Inl FileError
                | Some df_s \<Rightarrow>
                   (case fs_read_csv fs (last g_files) of
                      None \<Rightarrow> Inl FileError
                    | Some df_g \<Rightarrow>
                       (case derive_columns to_dt df_s of
                          Inl e \<Rightarrow> Inl e
                        | Inr s \<Rightarrow>
                           (case derive_columns to_dt df_g of
                              Inl e \<Rightarrow> Inl e
                            | Inr g \<Rightarrow> Inr (Some (s, g))))))))"

text \<open>
  An instance of the timestamp parser for the examples: it agrees with
  \<^verbatim>\<open>pd.to_datetime\<close> on day strings \<^verbatim>\<open>YYYY-MM-DD\<close>, on blank cells (NaT) and on cells
  that are timestamps already, and is applied to nothing else.
\<close>

definition digit :: "char \<Rightarrow> int option" where
  "digit c = (if CHR ''0'' \<le> c \<and> c \<le> CHR ''9'' then Some (int (of_char c) - 48) else None)"

fun digits :: "string \<Rightarrow> int \<Rightarrow> int option" where
  "digits [] acc = Some acc"
| "digits (c # cs) acc = (case digit c of None \<Rightarrow> None | Some d \<Rightarrow> digits cs (10 * acc + d))"

definition parse_iso_date :: "string \<Rightarrow> date option" where
  "parse_iso_date s =
     (if length s = 10 \<and> s ! 4 = CHR ''-'' \<and> s ! 7 = CHR ''-''
      then (case (digits (take 4 s) 0, digits (take 2 (drop 5 s)) 0, digits (drop 8 s) 0) of
              (Some y, Some m, Some d) \<Rightarrow>
                 if valid_date (Date y m d) then Some (Date y m d) else None
            | _ \<Rightarrow> None)
      else None)"

fun to_datetime_iso :: "cell \<Rightarrow> cell option" where
  "to_datetime_iso (CStr s) = map_option CDate (parse_iso_date s)"
| "to_datetime_iso (CFloat NaN) = Some CNaT"
| "to_datetime_iso (CDate d) = Some (CDate d)"
| "to_datetime_iso CNaT = Some CNaT"
| "to_datetime_iso _ = None"

section \<open>Text of a cell\<close>

text \<open>\<^verbatim>\<open>str\<close> of an integer, in decimal.\<close>

definition digit_char :: "nat \<Rightarrow> char" where
  "digit_char n = ''0123456789'' ! n"

function str_nat :: "nat \<Rightarrow> string" where
  "str_nat n = (if n < 10 then [digit_char n] else str_nat (n div 10) @ [digit_char (n mod 10)])"
  by pat_completeness auto
termination
  by (relation "measure id") auto

definition str_int :: "int \<Rightarrow> string" where
  "str_int i = (if i < 0 then CHR ''-'' # str_nat (nat (- i)) else str_nat (nat i))"

text \<open>A timestamp at midnight prints as \<^verbatim>\<open>YYYY-MM-DD\<close>.\<close>

definition zero_pad :: "nat \<Rightarrow> string \<Rightarrow> string" where
  "zero_pad w s = replicate (w - length s) CHR ''0'' @ s"

definition str_date :: "date \<Rightarrow> string" where
  "str_date dt =
     zero_pad 4 (str_int (d_year dt)) @ ''-'' @ zero_pad 2 (str_int (d_month dt)) @ ''-'' @
     zero_pad 2 (str_int (d_day dt))"

text \<open>
  \<^verbatim>\<open>astype(str)\<close>, cell by cell. The digits of a finite float are Python's \<^verbatim>\<open>repr\<close>, a
  parameter (\<open>repr\<close>); a cell that a row lacks counts as NaN.
\<close>

fun str_cell :: "(real \<Rightarrow> string) \<Rightarrow> cell option \<Rightarrow> string" where
  "str_cell repr None = ''nan''"
| "str_cell repr (Some (CStr s)) = s"
| "str_cell repr (Some (CInt n)) = str_int n"
| "str_cell repr (Some (CFloat NaN)) = ''nan''"
| "str_cell repr (Some (CFloat (Fin x))) = repr x"
| "str_cell repr (Some (CBool b)) = (if b then ''True'' else ''False'')"
| "str_cell repr (Some (CDate d)) = str_date d"
| "str_cell repr (Some CNaT) = ''NaT''"

text \<open>
  An instance of \<open>repr\<close> for the examples: Python's text of a float whose value is a
  whole number below \<open>10^16\<close> is the integer followed by \<^verbatim>\<open>.0\<close>. It is applied to such
  values only.
\<close>

definition repr_whole :: "real \<Rightarrow> string" where
  "repr_whole x = str_int \<lfloor>x\<rfloor> @ ''.0''"


section \<open>Data explorer: the combined table and the search box\<close>

text \<open>
  \<^verbatim>\<open>pd.concat([a, b])\<close>: the columns of \<open>a\<close> followed by the new ones of \<open>b\<close>; the rows of
  \<open>a\<close>, then those of \<open>b\<close>, with their labels. A column that a frame lacks is filled
  there with the missing value of the column: NaT where the other frame holds
  timestamps in it, NaN otherwise.
\<close>

definition is_time :: "cell option \<Rightarrow> bool" where
  "is_time c = (case c of Some (CDate d) \<Rightarrow> True | Some CNaT \<Rightarrow> True | _ \<Rightarrow> False)"

definition fill_value :: "(nat \<times> row) list \<Rightarrow> string \<Rightarrow> cell" where
  "fill_value others c =
     (if others \<noteq> [] \<and> list_all (\<lambda>(j, r). is_time (r c)) others then CNaT else CFloat NaN)"

definition widen_row :: "string list \<Rightarrow> frame \<Rightarrow> row \<Rightarrow> row" where
  "widen_row own other r =
     (\<lambda>c. if c \<in> set own then r c
          else if c \<in> set (columns other) then Some (fill_value (rows other) c)
          else None)"

text \<open>
  The dtype of a result column is the common one of its parts: a column in which a
  float stands (a NaN that was filled in, or a float column of one of the frames) is
  float64 if its other cells are integers, and these are floats in the result. A
  column of another mixture keeps its cells as they are (dtype object). (For a frame
  without rows pandas versions differ on whether its dtypes count; here the cells
  decide.)
\<close>

definition upcast :: "cell \<Rightarrow> cell" where
  "upcast c = (case c of CInt n \<Rightarrow> CFloat (Fin (real_of_int n)) | _ \<Rightarrow> c)"

definition is_float :: "cell option \<Rightarrow> bool" where
  "is_float c = (case c of Some (CFloat x) \<Rightarrow> True | _ \<Rightarrow> False)"

definition is_number :: "cell option \<Rightarrow> bool" where
  "is_number c = (case c of Some (CFloat x) \<Rightarrow> True | Some (CInt n) \<Rightarrow> True | _ \<Rightarrow> False)"

definition float_column :: "(nat \<times> row) list \<Rightarrow> string \<Rightarrow> bool" where
  "float_column rs c =
     (list_ex (\<lambda>(j, r). is_float (r c)) rs \<and> list_all (\<lambda>(j, r). is_number (r c)) rs)"

definition unify_dtypes :: "(nat \<times> row) list \<Rightarrow> (nat \<times> row) list" where
  "unify_dtypes rs =
     map (\<lambda>(i, r). (i, \<lambda>c. if float_column rs c then map_option upcast (r c) else r c)) rs"

definition pd_concat :: "frame \<Rightarrow> frame \<Rightarrow> frame" where
  "pd_concat a b =
     \<lparr>columns = columns a @ filter (\<lambda>c. c \<notin> set (columns a)) (columns b),
      rows = unify_dtypes
               (map (\<lambda>(i, r). (i, widen_row (columns a) b r)) (rows a) @
                map (\<lambda>(i, r). (i, widen_row (columns b) a r)) (rows b))\<rparr>"

text \<open>
  Line 236. \<^verbatim>\<open>str.contains(q, case=False)\<close> is called without \<^verbatim>\<open>regex=False\<close>, so pandas
  compiles the query as a regular expression with \<^verbatim>\<open>re.IGNORECASE\<close> and searches every
  text with it. The regular-expression library is a parameter: \<open>re_compile q\<close> is
  \<open>None\<close> when compiling \<open>q\<close> raises, and otherwise \<open>Some found\<close>, where \<open>found s\<close> tells
  whether the search finds a match in \<open>s\<close>.
\<close>

definition row_texts :: "(real \<Rightarrow> string) \<Rightarrow> string list \<Rightarrow> row \<Rightarrow> string list" where
  "row_texts repr cols r = map (\<lambda>c. str_cell repr (r c)) cols"

definition search_rows ::
  "(string \<Rightarrow> (string \<Rightarrow> bool) option) \<Rightarrow> (real \<Rightarrow> string) \<Rightarrow> string \<Rightarrow> frame \<Rightarrow> error + frame"
  where
  "search_rows re_compile repr search_query display_df =
     (case re_compile search_query of
        None \<Rightarrow> Inl ReError
      | Some found \<Rightarrow>
          Inr (boolean_index display_df
                (map (\<lambda>(i, r). list_ex found (row_texts repr (columns display_df) r))
                   (rows display_df))))"

text \<open>Lines 235 and 236 as a function of the table: an empty query skips the filter.\<close>

definition displayed_table ::
  "(string \<Rightarrow> (string \<Rightarrow> bool) option) \<Rightarrow> (real \<Rightarrow> string) \<Rightarrow> string \<Rightarrow> frame \<Rightarrow> error + frame"
  where
  "displayed_table re_compile repr search_query display_df =
     (if search_query = [] then Inr display_df
      else search_rows re_compile repr search_query display_df)"

text \<open>
  What the specification says of the search box, for comparison with the code: keep
  the rows of which some text contains the query as a literal substring, up to ASCII
  case.
\<close>

definition lower_char :: "char \<Rightarrow> char" where
  "lower_char c =
     (if CHR ''A'' \<le> c \<and> c \<le> CHR ''Z'' then char_of (of_char c + (32::nat)) else c)"

definition contains_ci :: "string \<Rightarrow> string \<Rightarrow> bool" where
  "contains_ci q s = sublist (map lower_char q) (map lower_char s)"

definition literal_search :: "(real \<Rightarrow> string) \<Rightarrow> string \<Rightarrow> frame \<Rightarrow> frame" where
  "literal_search repr q df =
     boolean_index df
       (map (\<lambda>(i, r). list_ex (contains_ci q) (row_texts repr (columns df) r)) (rows df))"

text \<open>
  An instance of the regular-expression parameter for the examples. On a pattern
  made of letters, digits, blanks, hyphens and dots it decides what
  \<^verbatim>\<open>re.compile(q, re.IGNORECASE).search\<close> decides: a dot matches any character but a
  newline, any other of these characters matches itself up to ASCII case. It is
  applied to such patterns only.
\<close>

fun match_here :: "string \<Rightarrow> string \<Rightarrow> bool" where
  "match_here [] s = True"
| "match_here (p # ps) [] = False"
| "match_here (p # ps) (c # cs) =
     ((if p = CHR ''.'' then c \<noteq> CHR 0x0A else lower_char p = lower_char c) \<and> match_here ps cs)"

fun re_search :: "string \<Rightarrow> string \<Rightarrow> bool" where
  "re_search p [] = match_here p []"
| "re_search p (c # cs) = (match_here p (c # cs) \<or> re_search p cs)"

definition re_compile_dots :: "string \<Rightarrow> (string \<Rightarrow> bool) option" where
  "re_compile_dots q = Some (re_search q)"

section \<open>The script after loading\<close>

text \<open>
  The data frames are objects on a heap, addressed by position; the global variables
  of the script hold addresses. An expression that builds a frame allocates a new
  object; an item assignment \<^verbatim>\<open>df[col] = ...\<close> overwrites the object the variable
  points to. \<open>ui\<close> collects the texts of the metric cards.
\<close>

record state =
  heap :: "frame list"
  env :: "string \<rightharpoonup> nat"
  ui :: "string list"

definition get_var :: "state \<Rightarrow> string \<Rightarrow> error + frame" where
  "get_var st name =
     (case env st name of
        None \<Rightarrow> Inl NameError
      | Some a \<Rightarrow> if a < length (heap st) then Inr (heap st ! a) else Inl NameError)"

text \<open>\<^verbatim>\<open>name = expr\<close> for an expression that builds a new frame.\<close>

definition new_frame :: "string \<Rightarrow> (state \<Rightarrow> error + frame) \<Rightarrow> state \<Rightarrow> error + state" where
  "new_frame name expr st =
     (case expr st of
        Inl e \<Rightarrow> Inl e
      | Inr df \<Rightarrow> Inr (st\<lparr>heap := heap st @ [df], env := (env st)(name \<mapsto> length (heap st))\<rparr>))"

text \<open>\<^verbatim>\<open>name[col] = ...\<close>: the object \<open>name\<close> points to is changed where it is.\<close>

definition update_frame :: "string \<Rightarrow> (frame \<Rightarrow> error + frame) \<Rightarrow> state \<Rightarrow> error + state" where
  "update_frame name change st =
     (case env st name of
        None \<Rightarrow> Inl NameError
      | Some a \<Rightarrow>
         if a < length (heap st)
         then (case change (heap st ! a) of
                 Inl e \<Rightarrow> Inl e
               | Inr df \<Rightarrow> Inr (st\<lparr>heap := (heap st)[a := df]\<rparr>))
         else Inl NameError)"

definition on_var :: "string \<Rightarrow> (frame \<Rightarrow> error + frame) \<Rightarrow> state \<Rightarrow> error + frame" where
  "on_var name f st = (case get_var st name of Inl e \<Rightarrow> Inl e | Inr df \<Rightarrow> f df)"

definition on_vars ::
  "string \<Rightarrow> string \<Rightarrow> (frame \<Rightarrow> frame \<Rightarrow> error + frame) \<Rightarrow> state \<Rightarrow> error + frame" where
  "on_vars name1 name2 f st =
     (case get_var st name1 of
        Inl e \<Rightarrow> Inl e
      | Inr a \<Rightarrow> (case get_var st name2 of Inl e \<Rightarrow> Inl e | Inr b \<Rightarrow> f a b))"

definition line_116 :: "int list \<Rightarrow> state \<Rightarrow> error + state" where
  "line_116 year_filter =
     new_frame ''df_s_filtered'' (on_var ''df_s'' (\<lambda>df. filterByYears df year_filter))"

definition line_117 :: "int list \<Rightarrow> state \<Rightarrow> error + state" where
  "line_117 year_filter =
     new_frame ''df_g_filtered'' (on_var ''df_g'' (\<lambda>df. filterByYears df year_filter))"

text \<open>Lines 126 to 139: the four metric cards, in the order in which they are computed.\<close>

fun collect :: "(error + string) list \<Rightarrow> error + string list" where
  "collect [] = Inr []"
| "collect (Inl e # xs) = Inl e"
| "collect (Inr s # xs) = (case collect xs of Inl e \<Rightarrow> Inl e | Inr ss \<Rightarrow> Inr (s # ss))"

definition lines_126_139 ::
  "(nat \<Rightarrow> real \<Rightarrow> string) \<Rightarrow> ((real \<times> real) list \<Rightarrow> pyfloat) \<Rightarrow> state \<Rightarrow> error + state"
  where
  "lines_126_139 fixed corrcoef st =
     (case get_var st ''df_s_filtered'' of
        Inl e \<Rightarrow> Inl e
      | Inr s \<Rightarrow>
         (case get_var st ''df_g_filtered'' of
            Inl e \<Rightarrow> Inl e
          | Inr g \<Rightarrow>
             (case collect [metric_text fixed 2 (ratio_mean s), metric_text fixed 2 (ratio_mean g),
                            metric_text fixed 1 (ratio_max s),
                            metric_text fixed 3 (headline_corr corrcoef s g)] of
                Inl e \<Rightarrow> Inl e
              | Inr texts \<Rightarrow> Inr (st\<lparr>ui := ui st @ texts\<rparr>))))"

definition line_184 :: "state \<Rightarrow> error + state" where
  "line_184 = new_frame ''day_avg'' (on_var ''df_s_filtered'' day_avg)"

text \<open>Line 191: the quarter column is written into the filtered table itself.\<close>

definition with_quarter :: "frame \<Rightarrow> frame" where
  "with_quarter df = assign ''quarter'' (\<lambda>r. dt_quarter (holds_nat df) (r ''period'')) df"

definition add_quarter :: "frame \<Rightarrow> error + frame" where
  "add_quarter df = (if ''period'' \<in> set (columns df) then Inr (with_quarter df) else Inl KeyError)"

definition line_191 :: "state \<Rightarrow> error + state" where
  "line_191 = update_frame ''df_s_filtered'' add_quarter"

text \<open>
  Line 192: the sum of the ratio per quarter, as a frame. The quarter labels are read
  as integers: line 191 writes them into a year-filtered table, which has no row
  without a date, so its quarter column is an integer column.
\<close>

definition quarter_sum :: "frame \<Rightarrow> error + frame" where
  "quarter_sum df =
     (case getitem df ''quarter'' of
        Inl e \<Rightarrow> Inl e
      | Inr ks \<Rightarrow>
         (case getitem df ''ratio'' of
            Inl e \<Rightarrow> Inl e
          | Inr s \<Rightarrow>
             (case numeric s of
                Inl e \<Rightarrow> Inl e
              | Inr vs \<Rightarrow>
                  Inr (reset_index ''quarter'' ''ratio'' CInt
                        (groupby int_label series_sum ks vs)))))"

definition line_192 :: "state \<Rightarrow> error + state" where
  "line_192 = new_frame ''q_sum'' (on_var ''df_s_filtered'' quarter_sum)"

text \<open>
  Line 193: the quarter labels of \<open>q_sum\<close> are replaced, in \<open>q_sum\<close> itself, by their text
  followed by the two syllables U+BD84 U+AE30 (UTF-8).
\<close>

definition bungi :: string where
  "bungi = [CHR 0xEB, CHR 0xB6, CHR 0x84, CHR 0xEA, CHR 0xB8, CHR 0xB0]"

definition label_quarters :: "(real \<Rightarrow> string) \<Rightarrow> frame \<Rightarrow> error + frame" where
  "label_quarters repr df =
     (if ''quarter'' \<in> set (columns df)
      then Inr (assign ''quarter'' (\<lambda>r. CStr (str_cell repr (r ''quarter'') @ bungi)) df)
      else Inl KeyError)"

definition line_193 :: "(real \<Rightarrow> string) \<Rightarrow> state \<Rightarrow> error + state" where
  "line_193 repr = update_frame ''q_sum'' (label_quarters repr)"

definition line_207 :: "state \<Rightarrow> error + state" where
  "line_207 = new_frame ''combined'' (on_vars ''df_s_filtered'' ''df_g_filtered'' merge_on_period)"

definition line_234 :: "state \<Rightarrow> error + state" where
  "line_234 =
     new_frame ''display_df''
       (on_vars ''df_s_filtered'' ''df_g_filtered'' (\<lambda>s g. Inr (pd_concat s g)))"

text \<open>Lines 235 and 236: with a query, \<open>display_df\<close> is bound to the new, filtered frame.\<close>

definition lines_235_236 ::
  "(string \<Rightarrow> (string \<Rightarrow> bool) option) \<Rightarrow> (real \<Rightarrow> string) \<Rightarrow> string \<Rightarrow> state \<Rightarrow> error + state"
  where
  "lines_235_236 re_compile repr search_query st =
     (if search_query = [] then Inr st
      else new_frame ''display_df''
             (on_var ''display_df'' (search_rows re_compile repr search_query)) st)"

text \<open>Running statements in sequence; the first exception ends the run.\<close>

fun run :: "(state \<Rightarrow> error + state) list \<Rightarrow> state \<Rightarrow> error + state" where
  "run [] st = Inr st"
| "run (stmt # stmts) st = (case stmt st of Inl e \<Rightarrow> Inl e | Inr st' \<Rightarrow> run stmts st')"

definition script ::
  "(nat \<Rightarrow> real \<Rightarrow> string) \<Rightarrow> ((real \<times> real) list \<Rightarrow> pyfloat) \<Rightarrow> (real \<Rightarrow> string) \<Rightarrow>
   (string \<Rightarrow> (string \<Rightarrow> bool) option) \<Rightarrow> int list \<Rightarrow> string \<Rightarrow> (state \<Rightarrow> error + state) list"
  where
  "script fixed corrcoef repr re_compile year_filter search_query =
     [line_116 year_filter, line_117 year_filter, lines_126_139 fixed corrcoef, line_184,
      line_191, line_192, line_193 repr, line_207, line_234,
      lines_235_236 re_compile repr search_query]"

text \<open>The state after a successful load: the two loaded tables and nothing else.\<close>

definition loaded :: "frame \<Rightarrow> frame \<Rightarrow> state" where
  "loaded s g = \<lparr>heap = [s, g], env = [''df_s'' \<mapsto> 0, ''df_g'' \<mapsto> 1], ui = []\<rparr>"

section \<open>Export and reload\<close>

text \<open>
  Line 241, \<^verbatim>\<open>display_df.to_csv(index=False)\<close>. A CSV document is taken as its header
  and its records, each a list of field texts; quoting, the line ends and the
  byte-order mark of the encoding are the library's business on both the writing and
  the reading side. A missing value is written as the empty field.
\<close>

type_synonym csv_doc = "string list \<times> string list list"

fun csv_text :: "(real \<Rightarrow> string) \<Rightarrow> cell option \<Rightarrow> string" where
  "csv_text repr None = []"
| "csv_text repr (Some (CFloat NaN)) = []"
| "csv_text repr (Some CNaT) = []"
| "csv_text repr (Some c) = str_cell repr (Some c)"

definition to_csv :: "(real \<Rightarrow> string) \<Rightarrow> frame \<Rightarrow> csv_doc" where
  "to_csv repr df =
     (columns df, map (\<lambda>(i, r). map (\<lambda>c. csv_text repr (r c)) (columns df)) (rows df))"

text \<open>
  \<^verbatim>\<open>pd.read_csv\<close> of such a document whose header names are distinct: the header gives
  the columns, the records the rows, labelled 0, 1, ... How pandas types the text of
  a field is a parameter (\<open>read_field\<close>, from column name and text to cell).
\<close>

definition read_csv_doc :: "(string \<Rightarrow> string \<Rightarrow> cell) \<Rightarrow> csv_doc \<Rightarrow> frame" where
  "read_csv_doc read_field doc =
     \<lparr>columns = fst doc,
      rows = enumerate 0
        (map (\<lambda>fields. map_of (zip (fst doc) (map (\<lambda>(c, t). read_field c t) (zip (fst doc) fields))))
           (snd doc))\<rparr>"

text \<open>Reloading an exported document: the loader's steps, then the year filter.\<close>

definition reload ::
  "(cell \<Rightarrow> cell option) \<Rightarrow> (string \<Rightarrow> string \<Rightarrow> cell) \<Rightarrow> int list \<Rightarrow> csv_doc \<Rightarrow> error + frame"
  where
  "reload to_dt read_field year_filter doc =
     (case derive_columns to_dt (read_csv_doc read_field doc) of
        Inl e \<Rightarrow> Inl e
      | Inr df \<Rightarrow> filterByYears df year_filter)"

text \<open>A row with a date whose year is one of the given years.\<close>

definition dated_in :: "int list \<Rightarrow> row \<Rightarrow> bool" where
  "dated_in ys r = (\<exists>d. r ''period'' = Some (CDate d) \<and> d_year d \<in> set ys)"

section \<open>Example inputs\<close>

text \<open>A loaded table with two days of July 2024, a Monday and a Tuesday.\<close>

definition ex_table :: frame where
  "ex_table =
     add_calendar_columns
       \<lparr>columns = [''period'', ''ratio''],
        rows = [(0, [''period'' \<mapsto> CDate (Date 2024 7 1), ''ratio'' \<mapsto> CFloat (Fin 80)]),
                (1, [''period'' \<mapsto> CDate (Date 2024 7 2), ''ratio'' \<mapsto> CFloat (Fin 90)])]\<rparr>"

text \<open>
  Two loaded tables of three rows each, the first for 1 to 3 January 2024 and the
  second for 1 to 3 February 2024, with the index labels 0, 1, 2 that
  \<^verbatim>\<open>pd.read_csv\<close> gives.
\<close>

definition ex_s :: frame where
  "ex_s =
     add_calendar_columns
       \<lparr>columns = [''period'', ''ratio''],
        rows = [(0, [''period'' \<mapsto> CDate (Date 2024 1 1), ''ratio'' \<mapsto> CFloat (Fin 1)]),
                (1, [''period'' \<mapsto> CDate (Date 2024 1 2), ''ratio'' \<mapsto> CFloat (Fin 2)]),
                (2, [''period'' \<mapsto> CDate (Date 2024 1 3), ''ratio'' \<mapsto> CFloat (Fin 3)])]\<rparr>"

definition ex_g :: frame where
  "ex_g =
     add_calendar_columns
       \<lparr>columns = [''period'', ''ratio''],
        rows = [(0, [''period'' \<mapsto> CDate (Date 2024 2 1), ''ratio'' \<mapsto> CFloat (Fin 2)]),
                (1, [''period'' \<mapsto> CDate (Date 2024 2 2), ''ratio'' \<mapsto> CFloat (Fin 4)]),
                (2, [''period'' \<mapsto> CDate (Date 2024 2 3), ''ratio'' \<mapsto> CFloat (Fin 6)])]\<rparr>"

text \<open>
  Two loaded tables for the same three days, 1 to 3 July 2024, which the second lists
  in descending order, with the index labels 0, 1, 2 that \<^verbatim>\<open>pd.read_csv\<close> gives.
\<close>

definition ex_asc :: frame where
  "ex_asc =
     add_calendar_columns
       \<lparr>columns = [''period'', ''ratio''],
        rows = [(0, [''period'' \<mapsto> CDate (Date 2024 7 1), ''ratio'' \<mapsto> CFloat (Fin 1)]),
                (1, [''period'' \<mapsto> CDate (Date 2024 7 2), ''ratio'' \<mapsto> CFloat (Fin 2)]),
                (2, [''period'' \<mapsto> CDate (Date 2024 7 3), ''ratio'' \<mapsto> CFloat (Fin 3)])]\<rparr>"

definition ex_desc :: frame where
  "ex_desc =
     add_calendar_columns
       \<lparr>columns = [''period'', ''ratio''],
        rows = [(0, [''period'' \<mapsto> CDate (Date 2024 7 3), ''ratio'' \<mapsto> CFloat (Fin 2)]),
                (1, [''period'' \<mapsto> CDate (Date 2024 7 2), ''ratio'' \<mapsto> CFloat (Fin 4)]),
                (2, [''period'' \<mapsto> CDate (Date 2024 7 1), ''ratio'' \<mapsto> CFloat (Fin 6)])]\<rparr>"

text \<open>
  A data directory with two files of the first series and one of the second. The
  directory lists the 2025 file of the first series before its 2024 file.
\<close>

definition ex_fs :: filesystem where
  "ex_fs =
     \<lparr>fs_exists = (\<lambda>p. p = ''data''),
      fs_listdir = (\<lambda>d. if d = ''data''
         then [sulbing @ ''_search_trend_2025-01.csv'',
               sulbing @ ''_search_trend_2024-01.csv'',
               sulbing @ '' '' @ gifticon @ ''_search_trend_2025-01.csv'']
         else []),
      fs_read_csv = (\<lambda>p.
         if p = ''data/'' @ sulbing @ ''_search_trend_2025-01.csv''
         then Some \<lparr>columns = [''period'', ''ratio''],
                    rows = [(0, [''period'' \<mapsto> CStr ''2025-01-01'', ''ratio'' \<mapsto> CFloat (Fin 55)])]\<rparr>
         else if p = ''data/'' @ sulbing @ ''_search_trend_2024-01.csv''
         then Some \<lparr>columns = [''period'', ''ratio''],
                    rows = [(0, [''period'' \<mapsto> CStr ''2024-01-01'', ''ratio'' \<mapsto> CFloat (Fin 44)])]\<rparr>
         else if p = ''data/'' @ sulbing @ '' '' @ gifticon @ ''_search_trend_2025-01.csv''
         then Some \<lparr>columns = [''period'', ''ratio''],
                    rows = [(0, [''period'' \<mapsto> CStr ''2025-01-01'', ''ratio'' \<mapsto> CFloat (Fin 33)])]\<rparr>
         else None)\<rparr>"

text \<open>
  Two loaded tables of one row each, both for 5 January 2024 (a Friday), with whole
  ratios, and the combined table that the data explorer shows for them.
\<close>

definition ex_brand :: frame where
  "ex_brand =
     add_calendar_columns
       \<lparr>columns = [''period'', ''ratio''],
        rows = [(0, [''period'' \<mapsto> CDate (Date 2024 1 5), ''ratio'' \<mapsto> CInt 50])]\<rparr>"

definition ex_card :: frame where
  "ex_card =
     add_calendar_columns
       \<lparr>columns = [''period'', ''ratio''],
        rows = [(0, [''period'' \<mapsto> CDate (Date 2024 1 5), ''ratio'' \<mapsto> CInt 20])]\<rparr>"

definition ex_display :: frame where
  "ex_display = pd_concat (with_quarter ex_brand) ex_card"

text \<open>
  An instance of the fixed-point formatter for the examples: Python's text of a whole
  number with \<open>p\<close> decimals is the integer, a dot and \<open>p\<close> zeros. It is applied to whole
  numbers only.
\<close>

definition format_whole :: "nat \<Rightarrow> real \<Rightarrow> string" where
  "format_whole p x = str_int \<lfloor>x\<rfloor> @ ''.'' @ replicate p CHR ''0''"

text \<open>The two parsed files behind the tables \<open>ex_brand\<close> and \<open>ex_card\<close>.\<close>

definition ex_raw_brand :: frame where
  "ex_raw_brand =
     \<lparr>columns = [''period'', ''ratio''],
      rows = [(0, [''period'' \<mapsto> CStr ''2024-01-05'', ''ratio'' \<mapsto> CInt 50])]\<rparr>"

definition ex_raw_card :: frame where
  "ex_raw_card =
     \<lparr>columns = [''period'', ''ratio''],
      rows = [(0, [''period'' \<mapsto> CStr ''2024-01-05'', ''ratio'' \<mapsto> CInt 20])]\<rparr>"

section \<open>Properties of the derived columns\<close>

lemma dayofweek_range: "0 \<le> dayofweek d \<and> dayofweek d < 7"
  by (simp add: dayofweek_def Let_def)

lemma rows_assign: "rows (assign name f df) = map (\<lambda>(i, r). (i, r(name \<mapsto> f r))) (rows df)"
  by (simp add: assign_def)

lemma columns_assign:
  "columns (assign name f df) =
     (if name \<in> set (columns df) then columns df else columns df @ [name])"
  by (simp add: assign_def)

lemma rows_add_calendar_columns:
  "rows (add_calendar_columns df) =
     map (\<lambda>(i, r). (i, r(''month'' \<mapsto> dt_month (holds_nat df) (r ''period''),
                          ''year'' \<mapsto> dt_year (holds_nat df) (r ''period''),
                          ''dayofweek'' \<mapsto> dt_day_name (r ''period''),
                          ''is_weekend'' \<mapsto>
                             CBool (cell_isin (Some (dt_dayofweek (holds_nat df) (r ''period'')))
                                      [5, 6]))))
       (rows df)"
  by (simp add: add_calendar_columns_def rows_assign case_prod_unfold o_def)

text \<open>An integer field is found by \<^verbatim>\<open>isin\<close> whether its column is a float column or not.\<close>

lemma cell_isin_int_field: "cell_isin (Some (int_field as_float n)) vs = (n \<in> set vs)"
  by (auto simp: int_field_def)

text \<open>A table all of whose rows are dated has integer calendar fields.\<close>

lemma holds_nat_dated:
  "\<forall>(i, r) \<in> set (rows df). \<exists>d. r ''period'' = Some (CDate d) \<Longrightarrow> \<not> holds_nat df"
  by (fastforce simp: holds_nat_def list_ex_iff)

text \<open>
  With a NaT in the \<open>period\<close> column the year of a dated row is a float; the weekend
  flag stays a truth value (6 January 2024 is a Saturday).
\<close>

lemma calendar_columns_with_nat:
  "map (\<lambda>(i, r). (r ''year'', r ''month'', r ''dayofweek'', r ''is_weekend''))
     (rows (add_calendar_columns
        \<lparr>columns = [''period''],
         rows = [(0, [''period'' \<mapsto> CDate (Date 2024 1 6)]), (1, [''period'' \<mapsto> CNaT])]\<rparr>)) =
     [(Some (CFloat (Fin 2024)), Some (CFloat (Fin 1)), Some (CStr ''Saturday''), Some (CBool True)),
      (Some (CFloat NaN), Some (CFloat NaN), Some (CFloat NaN), Some (CBool False))]"
  by (simp add: rows_add_calendar_columns holds_nat_def int_field_def day_name_def dayofweek_def
      sakamoto_arr_def DAYS_def)

lemma year_in_columns_add_calendar_columns: "''year'' \<in> set (columns (add_calendar_columns df))"
  by (simp add: add_calendar_columns_def columns_assign)

lemma day_name_weekend:
  "(day_name d = ''Saturday'' \<or> day_name d = ''Sunday'') = (dayofweek d = 5 \<or> dayofweek d = 6)"
proof -
  have "dayofweek d \<in> {0, 1, 2, 3, 4, 5, 6}"
    using dayofweek_range [of d] by auto
  then show ?thesis
    by (auto simp: day_name_def DAYS_def)
qed

text \<open>
  Claim C9. In a table whose calendar columns were derived by the loader, every row
  with a valid date has \<open>is_weekend\<close> true exactly when its derived day name is Saturday
  or Sunday.
\<close>

theorem is_weekend_iff_weekend_name:
  assumes "(i, r) \<in> set (rows (add_calendar_columns df))"
    and "r ''period'' = Some (CDate d)"
    and "valid_date d"
  shows "r ''dayofweek'' = Some (CStr (day_name d)) \<and>
         r ''is_weekend'' = Some (CBool (day_name d = ''Saturday'' \<or> day_name d = ''Sunday''))"
proof -
  from assms(1) obtain r0 where r0: "(i, r0) \<in> set (rows df)"
    and r: "r = r0(''month'' \<mapsto> dt_month (holds_nat df) (r0 ''period''),
                   ''year'' \<mapsto> dt_year (holds_nat df) (r0 ''period''),
                   ''dayofweek'' \<mapsto> dt_day_name (r0 ''period''),
                   ''is_weekend'' \<mapsto>
                      CBool (cell_isin (Some (dt_dayofweek (holds_nat df) (r0 ''period'')))
                               [5, 6]))"
    by (auto simp: rows_add_calendar_columns)
  from r assms(2) have p: "r0 ''period'' = Some (CDate d)"
    by simp
  show ?thesis
    by (simp add: r p day_name_weekend cell_isin_int_field)
qed


theorem is_weekend_iff_weekend_name_witness:
  "(0, [''period'' \<mapsto> CDate (Date 2024 2 29), ''ratio'' \<mapsto> CFloat (Fin 40),
        ''month'' \<mapsto> CInt 2, ''year'' \<mapsto> CInt 2024, ''dayofweek'' \<mapsto> CStr ''Thursday'',
        ''is_weekend'' \<mapsto> CBool False])
     \<in> set (rows (add_calendar_columns
          \<lparr>columns = [''period'', ''ratio''],
           rows = [(0, [''period'' \<mapsto> CDate (Date 2024 2 29), ''ratio'' \<mapsto> CFloat (Fin 40)])]\<rparr>))
   \<and> valid_date (Date 2024 2 29)
   \<and> day_name (Date 2024 2 29) = ''Thursday''
   \<and> \<not> (day_name (Date 2024 2 29) = ''Saturday'' \<or> day_name (Date 2024 2 29) = ''Sunday'')"
proof -
  let ?r0 = "[''period'' \<mapsto> CDate (Date 2024 2 29), ''ratio'' \<mapsto> CFloat (Fin 40)]"
  let ?df = "\<lparr>columns = [''period'', ''ratio''], rows = [(0::nat, ?r0)]\<rparr>"
  let ?r = "[''period'' \<mapsto> CDate (Date 2024 2 29), ''ratio'' \<mapsto> CFloat (Fin 40),
        ''month'' \<mapsto> CInt 2, ''year'' \<mapsto> CInt 2024, ''dayofweek'' \<mapsto> CStr ''Thursday'',
        ''is_weekend'' \<mapsto> CBool False]"
  have dow: "dayofweek (Date 2024 2 29) = 3"
    by (simp add: dayofweek_def sakamoto_arr_def)
  have dn: "day_name (Date 2024 2 29) = ''Thursday''"
    by (simp add: day_name_def dow DAYS_def)
  have m: "(0, ?r) \<in> set (rows (add_calendar_columns ?df))"
    by (simp add: rows_add_calendar_columns holds_nat_def int_field_def dn dow)
  have p: "?r ''period'' = Some (CDate (Date 2024 2 29))"
    by simp
  have v: "valid_date (Date 2024 2 29)"
    by (simp add: valid_date_def days_in_month_def is_leap_def)
  from is_weekend_iff_weekend_name [OF m p v]
  have "?r ''is_weekend'' =
          Some (CBool (day_name (Date 2024 2 29) = ''Saturday'' \<or>
                       day_name (Date 2024 2 29) = ''Sunday''))"
    by blast
  then have "\<not> (day_name (Date 2024 2 29) = ''Saturday'' \<or> day_name (Date 2024 2 29) = ''Sunday'')"
    by simp
  with m v dn show ?thesis
    by blast
qed

section \<open>Properties of the filter stage\<close>

lemma filter_zip_map: "map fst (filter snd (zip xs (map P xs))) = filter P xs"
  by (induction xs) auto

lemma rows_boolean_index_isin:
  "rows (boolean_index df (isin (map (\<lambda>(i, r). (i, r name)) (rows df)) vs)) =
     filter (\<lambda>(i, r). cell_isin (r name) vs) (rows df)"
proof -
  have "isin (map (\<lambda>(i, r). (i, r name)) (rows df)) vs =
          map (\<lambda>(i, r). cell_isin (r name) vs) (rows df)"
    by (simp add: isin_def case_prod_unfold o_def)
  then show ?thesis
    by (simp add: boolean_index_def filter_zip_map)
qed

lemma filterByYears_rows:
  assumes "''year'' \<in> set (columns df)"
  shows "filterByYears df ys =
           Inr \<lparr>columns = columns df,
                rows = filter (\<lambda>(i, r). cell_isin (r ''year'') ys) (rows df)\<rparr>"
proof -
  have "boolean_index df (isin (map (\<lambda>(i, r). (i, r ''year'')) (rows df)) ys) =
          \<lparr>columns = columns df,
           rows = filter (\<lambda>(i, r). cell_isin (r ''year'') ys) (rows df)\<rparr>"
    using rows_boolean_index_isin [of df "''year''" ys]
    by (simp add: boolean_index_def)
  with assms show ?thesis
    by (simp add: filterByYears_def getitem_def)
qed

lemma derived_year_isin:
  assumes "(i, r) \<in> set (rows (add_calendar_columns df))"
  shows "cell_isin (r ''year'') ys = (\<exists>d. r ''period'' = Some (CDate d) \<and> d_year d \<in> set ys)"
proof -
  from assms obtain r0 where
    r: "r = r0(''month'' \<mapsto> dt_month (holds_nat df) (r0 ''period''),
               ''year'' \<mapsto> dt_year (holds_nat df) (r0 ''period''),
               ''dayofweek'' \<mapsto> dt_day_name (r0 ''period''),
               ''is_weekend'' \<mapsto>
                  CBool (cell_isin (Some (dt_dayofweek (holds_nat df) (r0 ''period'')))
                           [5, 6]))"
    by (auto simp: rows_add_calendar_columns)
  have y: "r ''year'' = Some (dt_year (holds_nat df) (r0 ''period''))"
    and p: "r ''period'' = r0 ''period''"
    by (simp_all add: r)
  show ?thesis
  proof (cases "r0 ''period''")
    case None
    then show ?thesis by (simp add: y p)
  next
    case (Some c)
    then show ?thesis by (cases c) (simp_all add: y p cell_isin_int_field)
  qed
qed

text \<open>
  Claim C6. For a table with the loader's derived columns and any list of years,
  the year filter succeeds and returns a table with the same columns holding exactly
  the rows whose derived year is in the list, in their original relative order; for
  the empty list of years it returns the empty table.
\<close>

theorem filterByYears_exact:
  "\<exists>out. filterByYears (add_calendar_columns df) ys = Inr out \<and>
         columns out = columns (add_calendar_columns df) \<and>
         rows out = filter (\<lambda>(i, r). \<exists>d. r ''period'' = Some (CDate d) \<and> d_year d \<in> set ys)
                      (rows (add_calendar_columns df)) \<and>
         subseq (rows out) (rows (add_calendar_columns df)) \<and>
         filterByYears (add_calendar_columns df) [] =
           Inr \<lparr>columns = columns (add_calendar_columns df), rows = []\<rparr>"
proof -
  let ?t = "add_calendar_columns df"
  have f: "filter (\<lambda>(i, r). cell_isin (r ''year'') zs) (rows ?t) =
           filter (\<lambda>(i, r). \<exists>d. r ''period'' = Some (CDate d) \<and> d_year d \<in> set zs) (rows ?t)"
    for zs
    by (rule filter_cong) (auto simp: derived_year_isin)
  have e: "filterByYears ?t zs =
           Inr \<lparr>columns = columns ?t,
                rows = filter (\<lambda>(i, r). \<exists>d. r ''period'' = Some (CDate d) \<and> d_year d \<in> set zs)
                         (rows ?t)\<rparr>" for zs
    using filterByYears_rows [OF year_in_columns_add_calendar_columns, of df zs] f [of zs]
    by simp
  have "filterByYears ?t [] = Inr \<lparr>columns = columns ?t, rows = []\<rparr>"
    using e [of "[]"] by simp
  then show ?thesis
    using e [of ys] by simp
qed

section \<open>Properties of the metrics stage\<close>

lemma reduce_column_empty:
  assumes "name \<in> set (columns df)" and "rows df = []"
  shows "reduce_column red df name = Inr (red [])"
  using assms by (simp add: reduce_column_def getitem_def)

text \<open>
  Claim C2, as the code has it. For a table that is empty after year filtering, mean
  and max of the ratio column raise nothing and return NaN, the float that pandas uses
  for "missing" (not zero), and the metric cards show it as the text \<open>nan\<close>.
\<close>

theorem empty_table_metrics_nan:
  assumes "''ratio'' \<in> set (columns df)"
    and "filterByYears df ys = Inr out"
    and "rows out = []"
  shows "ratio_mean out = Inr NaN \<and> ratio_max out = Inr NaN \<and>
         ratio_mean out \<noteq> Inr (Fin 0) \<and> ratio_max out \<noteq> Inr (Fin 0) \<and>
         metric_text fixed 2 (ratio_mean out) = Inr ''nan'' \<and>
         metric_text fixed 1 (ratio_max out) = Inr ''nan''"
proof -
  from assms(2) have "columns out = columns df"
    by (auto simp: filterByYears_def boolean_index_def split: sum.splits)
  with assms(1) have c: "''ratio'' \<in> set (columns out)"
    by simp
  have m: "ratio_mean out = Inr NaN"
    using reduce_column_empty [OF c assms(3)] by (simp add: ratio_mean_def series_mean_def)
  have x: "ratio_max out = Inr NaN"
    using reduce_column_empty [OF c assms(3)] by (simp add: ratio_max_def series_max_def)
  show ?thesis
    by (simp add: m x metric_text_def)
qed

lemma columns_ex_table:
  "columns ex_table = [''period'', ''ratio'', ''month'', ''year'', ''dayofweek'', ''is_weekend'']"
  by (simp add: ex_table_def add_calendar_columns_def columns_assign)

lemma cell_isin_Nil: "cell_isin c [] = False"
  by (cases "(c, []::int list)" rule: cell_isin.cases) simp_all

lemma filter_ex_table_none:
  "filterByYears ex_table [] = Inr \<lparr>columns = columns ex_table, rows = []\<rparr>"
  by (simp add: filterByYears_rows columns_ex_table cell_isin_Nil)

theorem empty_table_metrics_nan_witness:
  "''ratio'' \<in> set (columns ex_table) \<and>
   filterByYears ex_table [] = Inr \<lparr>columns = columns ex_table, rows = []\<rparr> \<and>
   ratio_mean \<lparr>columns = columns ex_table, rows = []\<rparr> = Inr NaN \<and>
   ratio_max \<lparr>columns = columns ex_table, rows = []\<rparr> = Inr NaN \<and>
   metric_text (\<lambda>p x. ''?'') 2 (ratio_mean \<lparr>columns = columns ex_table, rows = []\<rparr>) = Inr ''nan''"
proof -
  have c: "''ratio'' \<in> set (columns ex_table)"
    by (simp add: columns_ex_table)
  have r: "rows \<lparr>columns = columns ex_table, rows = []\<rparr> = []"
    by simp
  from empty_table_metrics_nan [OF c filter_ex_table_none r, of "\<lambda>p x. ''?''"] c
    filter_ex_table_none
  show ?thesis by blast
qed

text \<open>
  Claim C2 as stated asks for an absent value that is never NaN: the year filter with
  no year selected leaves the example table empty, and both reductions return NaN.
\<close>

theorem empty_table_metrics_counterexample:
  "filterByYears ex_table [] = Inr \<lparr>columns = columns ex_table, rows = []\<rparr> \<and>
   ratio_mean \<lparr>columns = columns ex_table, rows = []\<rparr> = Inr NaN \<and>
   ratio_max \<lparr>columns = columns ex_table, rows = []\<rparr> = Inr NaN"
proof -
  have "reduce_column red \<lparr>columns = columns ex_table, rows = []\<rparr> ''ratio'' = Inr (red [])"
    for red
    by (rule reduce_column_empty) (simp_all add: columns_ex_table)
  then show ?thesis
    by (simp add: filter_ex_table_none ratio_mean_def ratio_max_def series_mean_def
        series_max_def)
qed

section \<open>Properties of the aggregation stage\<close>

lemma groupby_labels:
  "fst ` set (groupby label_of red ks vs) \<subseteq> {l. \<exists>(i, c) \<in> set ks. label_of c = Some l}"
proof
  fix l
  assume "l \<in> fst ` set (groupby label_of red ks vs)"
  then have "Some l \<in> fst ` set (zip (map (\<lambda>(i, c). label_of c) ks) vs)"
    by (force simp: groupby_def Let_def List.map_filter_def image_iff)
  then have "Some l \<in> set (map (\<lambda>(i, c). label_of c) ks)"
    by (auto dest: set_zip_leftD)
  then show "l \<in> {l. \<exists>(i, c) \<in> set ks. label_of c = Some l}"
    by force
qed

lemma map_of_groupby_None:
  assumes "\<forall>(i, c) \<in> set ks. label_of c \<noteq> Some l"
  shows "map_of (groupby label_of red ks vs) l = None"
proof -
  have "l \<notin> fst ` set (groupby label_of red ks vs)"
    using assms groupby_labels [of label_of red ks vs] by fastforce
  then show ?thesis
    by (simp add: map_of_eq_None_iff)
qed

lemma str_label_Some: "str_label c = Some l \<longleftrightarrow> c = Some (CStr l)"
  by (cases "c" rule: str_label.cases) simp_all

lemma day_avg_Inr:
  assumes "''dayofweek'' \<in> set (columns df)"
    and "''ratio'' \<in> set (columns df)"
    and "numeric (map (\<lambda>(i, r). (i, r ''ratio'')) (rows df)) = Inr vs"
  shows "day_avg df =
           Inr (reset_index ''dayofweek'' ''ratio'' CStr
                 (reindex DAYS
                   (groupby str_label series_mean
                     (map (\<lambda>(i, r). (i, r ''dayofweek'')) (rows df)) vs)))"
  using assms by (simp add: day_avg_def getitem_def)

lemma map_enumerate_values: "map (\<lambda>(i, x). f x) (enumerate n xs) = map f xs"
  by (induction xs arbitrary: n) simp_all

lemma length_DAYS: "length DAYS = 7"
  by (simp add: DAYS_def)

lemma map_of_keyed:
  "map_of (map (\<lambda>l. (l, f l)) ls) l = (if l \<in> set ls then Some (f l) else None)"
  by (induction ls) auto

lemma groupby_lookup:
  assumes "red [] = NaN"
  shows "(case map_of (groupby label_of red ks vs) l of Some v \<Rightarrow> v | None \<Rightarrow> NaN) =
           red (map snd (filter (\<lambda>(k, v). k = Some l)
                  (zip (map (\<lambda>(i, c). label_of c) ks) vs)))"
proof -
  let ?kv = "zip (map (\<lambda>(i, c). label_of c) ks) vs"
  let ?ls = "sort (remdups (List.map_filter fst ?kv))"
  have m: "map_of (groupby label_of red ks vs) l =
             (if l \<in> set ?ls then Some (red (map snd (filter (\<lambda>(k, v). k = Some l) ?kv)))
              else None)"
    unfolding groupby_def Let_def by (rule map_of_keyed)
  show ?thesis
  proof (cases "l \<in> set ?ls")
    case True
    with m show ?thesis by simp
  next
    case False
    then have "Some l \<notin> fst ` set ?kv"
      by (force simp: List.map_filter_def image_iff)
    then have "filter (\<lambda>(k, v). k = Some l) ?kv = []"
      by (force simp: filter_empty_conv)
    with m False assms show ?thesis
      by simp
  qed
qed

lemma day_values:
  "map snd (filter (\<lambda>(k, v). k = Some l) (zip (map (\<lambda>(i, c). str_label c) ks) vs)) =
   map snd (filter (\<lambda>(c, v). c = Some (CStr l)) (zip (map snd ks) vs))"
proof (induction ks arbitrary: vs)
  case Nil
  then show ?case by simp
next
  case (Cons k ks)
  show ?case
  proof (cases vs)
    case Nil
    then show ?thesis by simp
  next
    case (Cons v vs')
    with Cons.IH [of vs'] show ?thesis
      by (cases k) (simp add: str_label_Some)
  qed
qed

text \<open>
  Claim C7. Whenever the ratio column is numeric, the weekday aggregation returns
  exactly seven rows, labelled Monday .. Sunday in that order, for any table. The
  value of a day is the mean of the ratio values of the rows that carry its name; a
  day name that no row of the table carries is present with NaN, the missing marker.
\<close>

theorem day_avg_seven_buckets:
  assumes "''dayofweek'' \<in> set (columns df)"
    and "''ratio'' \<in> set (columns df)"
    and "numeric (map (\<lambda>(i, r). (i, r ''ratio'')) (rows df)) = Inr vs"
  shows "\<exists>out. day_avg df = Inr out \<and> length (rows out) = 7 \<and>
           map (\<lambda>(i, r). r ''dayofweek'') (rows out) = map (\<lambda>d. Some (CStr d)) DAYS \<and>
           (\<forall>k<7. snd (rows out ! k) ''ratio'' =
                  Some (CFloat (series_mean (map snd
                    (filter (\<lambda>(c, v). c = Some (CStr (DAYS ! k)))
                       (zip (map (\<lambda>(i, r). r ''dayofweek'') (rows df)) vs)))))) \<and>
           (\<forall>k<7. (\<forall>(i, r) \<in> set (rows df). r ''dayofweek'' \<noteq> Some (CStr (DAYS ! k))) \<longrightarrow>
                  snd (rows out ! k) ''ratio'' = Some (CFloat NaN))"
proof -
  let ?ks = "map (\<lambda>(i, r). (i, r ''dayofweek'')) (rows df)"
  let ?g = "groupby str_label series_mean ?ks vs"
  let ?out = "reset_index ''dayofweek'' ''ratio'' CStr (reindex DAYS ?g)"
  have out: "day_avg df = Inr ?out"
    by (rule day_avg_Inr [OF assms])
  have len: "length (rows ?out) = 7"
    by (simp add: reset_index_def reindex_def length_DAYS)
  have names: "map (\<lambda>(i, r). r ''dayofweek'') (rows ?out) = map (\<lambda>d. Some (CStr d)) DAYS"
    by (simp add: reset_index_def reindex_def map_enumerate_values o_def)
  have nan: "snd (rows ?out ! k) ''ratio'' = Some (CFloat NaN)"
    if k: "k < 7" and none: "\<forall>(i, r) \<in> set (rows df). r ''dayofweek'' \<noteq> Some (CStr (DAYS ! k))"
    for k
  proof -
    have "\<forall>(i, c) \<in> set ?ks. str_label c \<noteq> Some (DAYS ! k)"
      using none by (auto simp: str_label_Some)
    then have "map_of ?g (DAYS ! k) = None"
      by (rule map_of_groupby_None)
    moreover have "rows ?out ! k =
        (k, [''dayofweek'' \<mapsto> CStr (DAYS ! k),
             ''ratio'' \<mapsto> CFloat (case map_of ?g (DAYS ! k) of Some v \<Rightarrow> v | None \<Rightarrow> NaN)])"
      using k by (simp add: reset_index_def reindex_def nth_enumerate_eq length_DAYS)
    ultimately show ?thesis
      by simp
  qed
  have val: "snd (rows ?out ! k) ''ratio'' =
                  Some (CFloat (series_mean (map snd
                    (filter (\<lambda>(c, v). c = Some (CStr (DAYS ! k)))
                       (zip (map (\<lambda>(i, r). r ''dayofweek'') (rows df)) vs)))))"
    if k: "k < 7" for k
  proof -
    have r: "rows ?out ! k =
        (k, [''dayofweek'' \<mapsto> CStr (DAYS ! k),
             ''ratio'' \<mapsto> CFloat (case map_of ?g (DAYS ! k) of Some v \<Rightarrow> v | None \<Rightarrow> NaN)])"
      using k by (simp add: reset_index_def reindex_def nth_enumerate_eq length_DAYS)
    have e: "series_mean [] = NaN"
      by (simp add: series_mean_def)
    have s: "map snd ?ks = map (\<lambda>(i, r). r ''dayofweek'') (rows df)"
      by (simp add: case_prod_unfold o_def)
    have "(case map_of ?g (DAYS ! k) of Some v \<Rightarrow> v | None \<Rightarrow> NaN) =
            series_mean (map snd (filter (\<lambda>(c, v). c = Some (CStr (DAYS ! k)))
              (zip (map (\<lambda>(i, r). r ''dayofweek'') (rows df)) vs)))"
      unfolding groupby_lookup [of series_mean, OF e] day_values s ..
    with r show ?thesis
      by simp
  qed
  from out len names val nan show ?thesis
    by blast
qed

theorem day_avg_seven_buckets_witness:
  "''dayofweek'' \<in> set (columns ex_table) \<and> ''ratio'' \<in> set (columns ex_table) \<and>
   numeric (map (\<lambda>(i, r). (i, r ''ratio'')) (rows ex_table)) = Inr [Fin 80, Fin 90] \<and>
   (\<exists>out. day_avg ex_table = Inr out \<and> length (rows out) = 7 \<and>
      map (\<lambda>(i, r). r ''dayofweek'') (rows out) =
        [Some (CStr ''Monday''), Some (CStr ''Tuesday''), Some (CStr ''Wednesday''),
         Some (CStr ''Thursday''), Some (CStr ''Friday''), Some (CStr ''Saturday''),
         Some (CStr ''Sunday'')] \<and>
      snd (rows out ! 0) ''ratio'' = Some (CFloat (Fin 80)) \<and>
      snd (rows out ! 2) ''ratio'' = Some (CFloat NaN))"
proof -
  have c: "''dayofweek'' \<in> set (columns ex_table)" "''ratio'' \<in> set (columns ex_table)"
    by (simp_all add: columns_ex_table)
  have r: "map (\<lambda>(i, r). (i, r ''ratio'')) (rows ex_table) =
             [(0, Some (CFloat (Fin 80))), (1, Some (CFloat (Fin 90)))]"
    by (simp add: ex_table_def rows_add_calendar_columns)
  have n: "numeric (map (\<lambda>(i, r). (i, r ''ratio'')) (rows ex_table)) = Inr [Fin 80, Fin 90]"
    by (simp add: r)
  have d: "map (\<lambda>(i, r). r ''dayofweek'') (rows ex_table) =
             [Some (CStr ''Monday''), Some (CStr ''Tuesday'')]"
    by (simp add: ex_table_def rows_add_calendar_columns day_name_def dayofweek_def
      sakamoto_arr_def DAYS_def)
  have w: "\<forall>(i, r) \<in> set (rows ex_table). r ''dayofweek'' \<noteq> Some (CStr (DAYS ! 2))"
  proof -
    have "\<forall>x \<in> set (map (\<lambda>(i, r). r ''dayofweek'') (rows ex_table)). x \<noteq> Some (CStr (DAYS ! 2))"
      unfolding d by (simp add: DAYS_def)
    then show ?thesis
      by auto
  qed
  from day_avg_seven_buckets [OF c n] obtain out where
    o: "day_avg ex_table = Inr out" "length (rows out) = 7"
      "map (\<lambda>(i, r). r ''dayofweek'') (rows out) = map (\<lambda>d. Some (CStr d)) DAYS"
      "\<forall>k<7. snd (rows out ! k) ''ratio'' =
                  Some (CFloat (series_mean (map snd
                    (filter (\<lambda>(c, v). c = Some (CStr (DAYS ! k)))
                       (zip (map (\<lambda>(i, r). r ''dayofweek'') (rows ex_table))
                          [Fin 80, Fin 90])))))"
      "\<forall>k<7. (\<forall>(i, r) \<in> set (rows ex_table). r ''dayofweek'' \<noteq> Some (CStr (DAYS ! k))) \<longrightarrow>
                  snd (rows out ! k) ''ratio'' = Some (CFloat NaN)"
    by (elim exE conjE)
  from o(4) have "snd (rows out ! 0) ''ratio'' =
                  Some (CFloat (series_mean (map snd
                    (filter (\<lambda>(c, v). c = Some (CStr (DAYS ! 0)))
                       (zip (map (\<lambda>(i, r). r ''dayofweek'') (rows ex_table))
                          [Fin 80, Fin 90])))))"
    by simp
  then have m: "snd (rows out ! 0) ''ratio'' = Some (CFloat (Fin 80))"
    unfolding d by (simp add: DAYS_def series_mean_def)
  from o(5) w have x: "snd (rows out ! 2) ''ratio'' = Some (CFloat NaN)"
    by simp
  from o(3) have y: "map (\<lambda>(i, r). r ''dayofweek'') (rows out) =
        [Some (CStr ''Monday''), Some (CStr ''Tuesday''), Some (CStr ''Wednesday''),
         Some (CStr ''Thursday''), Some (CStr ''Friday''), Some (CStr ''Saturday''),
         Some (CStr ''Sunday'')]"
    by (simp add: DAYS_def)
  have "\<exists>out. day_avg ex_table = Inr out \<and> length (rows out) = 7 \<and>
      map (\<lambda>(i, r). r ''dayofweek'') (rows out) =
        [Some (CStr ''Monday''), Some (CStr ''Tuesday''), Some (CStr ''Wednesday''),
         Some (CStr ''Thursday''), Some (CStr ''Friday''), Some (CStr ''Saturday''),
         Some (CStr ''Sunday'')] \<and>
      snd (rows out ! 0) ''ratio'' = Some (CFloat (Fin 80)) \<and>
      snd (rows out ! 2) ''ratio'' = Some (CFloat NaN)"
    by (rule exI [of _ out], intro conjI) (fact o(1) o(2) x y m)+
  with c n show ?thesis
    by (intro conjI)
qed


section \<open>Properties of the correlation metric and of the merged table\<close>

lemma corrcoef_ex: "corrcoef_exact [(1, 2), (2, 4), (3, 6)] = Fin 1"
  by (simp add: corrcoef_exact_def Let_def)


lemma columns_ex_s:
  "columns ex_s = [''period'', ''ratio'', ''month'', ''year'', ''dayofweek'', ''is_weekend'']"
  by (simp add: ex_s_def add_calendar_columns_def columns_assign)

lemma columns_ex_g:
  "columns ex_g = [''period'', ''ratio'', ''month'', ''year'', ''dayofweek'', ''is_weekend'']"
  by (simp add: ex_g_def add_calendar_columns_def columns_assign)

lemma filter_ex_s_all: "filterByYears ex_s [2024, 2025] = Inr ex_s"
proof -
  have "filter (\<lambda>(i, r). cell_isin (r ''year'') [2024, 2025]) (rows ex_s) = rows ex_s"
    by (simp add: ex_s_def rows_add_calendar_columns cell_isin_int_field)
  then show ?thesis
    by (simp add: filterByYears_rows columns_ex_s)
qed

lemma filter_ex_g_all: "filterByYears ex_g [2024, 2025] = Inr ex_g"
proof -
  have "filter (\<lambda>(i, r). cell_isin (r ''year'') [2024, 2025]) (rows ex_g) = rows ex_g"
    by (simp add: ex_g_def rows_add_calendar_columns cell_isin_int_field)
  then show ?thesis
    by (simp add: filterByYears_rows columns_ex_g)
qed

lemma headline_corr_ex: "headline_corr corrcoef_exact ex_s ex_g = Inr (Fin 1)"
proof -
  have a: "getitem ex_s ''ratio'' =
             Inr [(0, Some (CFloat (Fin 1))), (1, Some (CFloat (Fin 2))), (2, Some (CFloat (Fin 3)))]"
    by (simp add: getitem_def columns_ex_s) (simp add: ex_s_def rows_add_calendar_columns)
  have b: "getitem ex_g ''ratio'' =
             Inr [(0, Some (CFloat (Fin 2))), (1, Some (CFloat (Fin 4))), (2, Some (CFloat (Fin 6)))]"
    by (simp add: getitem_def columns_ex_g) (simp add: ex_g_def rows_add_calendar_columns)
  show ?thesis
    by (simp add: headline_corr_def a b series_corr_def align_inner_def pearson_def corrcoef_ex)
qed

lemma merge_ex_empty:
  "merge_on_period ex_s ex_g = Inr \<lparr>columns = [''period'', ''ratio_s'', ''ratio_g''], rows = []\<rparr>"
  by (simp add: merge_on_period_def columns_ex_s columns_ex_g)
    (simp add: ex_s_def ex_g_def rows_add_calendar_columns)

text \<open>
  Claim C4, at an input where it fails. Both series have three 2024 rows, the first
  for 1 to 3 January and the second for 1 to 3 February, so no timestamp of one occurs
  in the other (the join on \<open>period\<close> is empty). The headline correlation pairs the
  rows by their index labels 0, 1, 2 and returns the number 1 (the pairs are (1, 2),
  (2, 4), (3, 6), on which numpy's arithmetic is exact).
\<close>

theorem headline_corr_disjoint_timestamps:
  "filterByYears ex_s [2024, 2025] = Inr ex_s \<and>
   filterByYears ex_g [2024, 2025] = Inr ex_g \<and>
   merge_on_period ex_s ex_g = Inr \<lparr>columns = [''period'', ''ratio_s'', ''ratio_g''], rows = []\<rparr> \<and>
   headline_corr corrcoef_exact ex_s ex_g = Inr (Fin 1)"
  by (simp add: filter_ex_s_all filter_ex_g_all merge_ex_empty headline_corr_ex)


lemma set_enumerate_values: "snd ` set (enumerate n xs) = set xs"
proof -
  have "set (map snd (enumerate n xs)) = set xs"
    by simp
  then show ?thesis
    by (simp only: set_map)
qed

lemma set_nested_join:
  "set (concat (map (\<lambda>p. map (\<lambda>q. f p q) (filter (\<lambda>q. P p q) ys)) xs)) =
     {f p q | p q. p \<in> set xs \<and> q \<in> set ys \<and> P p q}"
  by auto

lemma set_align_inner:
  "set (align_inner a b) = {(x, y). \<exists>i. (i, x) \<in> set a \<and> (i, y) \<in> set b}"
proof -
  have "set (align_inner a b) =
          {(snd p, snd q) | p q. p \<in> set a \<and> q \<in> set b \<and> fst q = fst p}"
    unfolding align_inner_def case_prod_unfold by (rule set_nested_join)
  also have "\<dots> = {(x, y). \<exists>i. (i, x) \<in> set a \<and> (i, y) \<in> set b}"
    by force
  finally show ?thesis .
qed

lemma headline_corr_series:
  assumes "''ratio'' \<in> set (columns s)" and "''ratio'' \<in> set (columns g)"
  shows "headline_corr corr s g =
           series_corr corr (map (\<lambda>(i, r). (i, r ''ratio'')) (rows s))
                            (map (\<lambda>(i, r). (i, r ''ratio'')) (rows g))"
  using assms by (simp add: headline_corr_def getitem_def)

text \<open>
  With unique labels in the second series, alignment pairs each entry of the first, in
  order, with the entry of the second that carries its label, and drops it if there
  is none.
\<close>

lemma filter_label_map_of:
  "distinct (map fst b) \<Longrightarrow>
   filter (\<lambda>(j, y). j = i) b = (case map_of b i of None \<Rightarrow> [] | Some y \<Rightarrow> [(i, y)])"
proof (induction b)
  case Nil
  then show ?case by simp
next
  case (Cons p b)
  obtain j y where p: "p = (j, y)"
    by (cases p)
  show ?case
  proof (cases "j = i")
    case True
    with Cons.prems p have "i \<notin> fst ` set b"
      by auto
    then have "filter (\<lambda>(j, y). j = i) b = []"
      by (force simp: filter_empty_conv)
    with p True show ?thesis by simp
  next
    case False
    with Cons p show ?thesis by simp
  qed
qed

lemma align_inner_map_of:
  assumes "distinct (map fst b)"
  shows "align_inner a b =
           List.map_filter (\<lambda>(i, x). map_option (\<lambda>y. (x, y)) (map_of b i)) a"
proof (induction a)
  case Nil
  then show ?case by (simp add: align_inner_def)
next
  case (Cons p a)
  obtain i x where p: "p = (i, x)"
    by (cases p)
  have "align_inner (p # a) b = map (\<lambda>(j, y). (x, y)) (filter (\<lambda>(j, y). j = i) b) @ align_inner a b"
    by (simp add: align_inner_def p)
  then show ?case
    by (simp add: filter_label_map_of [OF assms] Cons.IH p split: option.splits)
qed

lemma labels_of_column: "map fst (map (\<lambda>(i, r). (i, f r)) rs) = map fst rs"
  by (induction rs) auto

lemma align_inner_columns:
  assumes "distinct (map fst gs)"
  shows "align_inner (map (\<lambda>(i, r). (i, f r)) rs) (map (\<lambda>(i, r). (i, f r)) gs) =
           List.map_filter (\<lambda>(i, l). map_option (\<lambda>r. (f l, f r)) (map_of gs i)) rs"
proof -
  let ?b = "map (\<lambda>(i, r). (i, f r)) gs"
  have d: "distinct (map fst ?b)"
    by (simp only: labels_of_column assms)
  have m: "map_of ?b i = map_option f (map_of gs i)" for i
    by (induction gs) auto
  have "List.map_filter (\<lambda>(i, x). map_option (\<lambda>y. (x, y)) (map_of ?b i))
          (map (\<lambda>(i, r). (i, f r)) rs) =
        List.map_filter (\<lambda>(i, l). map_option (\<lambda>r. (f l, f r)) (map_of gs i)) rs"
    by (induction rs) (auto simp: m split: option.splits)
  then show ?thesis
    by (simp only: align_inner_map_of [OF d])
qed

text \<open>
  Claim C10. The table behind the scatter plot holds exactly the joined rows of the
  pairs of a row of the first table and a row of the second with the same \<open>period\<close>,
  so a row whose period the other table lacks contributes nothing. The headline
  correlation is the coefficient of other pairs: it is computed from the ratio cells
  of the rows that carry the same index label, whatever their periods (an exception
  if one of these cells is not a number, and otherwise the coefficient of those of
  these pairs that have no NaN). With unique labels in the second table, as
  \<^verbatim>\<open>pd.read_csv\<close> and the year filter leave them, these pairs are: each row of the
  first table, in order, with the row of the second that carries its label.
\<close>

theorem merge_joins_on_period_corr_on_index:
  assumes "''period'' \<in> set (columns s)" and "''ratio'' \<in> set (columns s)"
    and "''period'' \<in> set (columns g)" and "''ratio'' \<in> set (columns g)"
  shows "\<exists>out. merge_on_period s g = Inr out \<and>
           columns out = [''period'', ''ratio_s'', ''ratio_g''] \<and>
           snd ` set (rows out) =
             {join_row l r | l r. (\<exists>i. (i, l) \<in> set (rows s)) \<and> (\<exists>j. (j, r) \<in> set (rows g)) \<and>
                                  l ''period'' = r ''period''} \<and>
           headline_corr corr s g =
             series_corr corr (map (\<lambda>(i, r). (i, r ''ratio'')) (rows s))
                              (map (\<lambda>(i, r). (i, r ''ratio'')) (rows g)) \<and>
           set (align_inner (map (\<lambda>(i, r). (i, r ''ratio'')) (rows s))
                            (map (\<lambda>(i, r). (i, r ''ratio'')) (rows g))) =
             {(l ''ratio'', r ''ratio'') | l r. \<exists>i. (i, l) \<in> set (rows s) \<and> (i, r) \<in> set (rows g)} \<and>
           headline_corr corr s g =
             (case numeric_pairs (align_inner (map (\<lambda>(i, r). (i, r ''ratio'')) (rows s))
                                              (map (\<lambda>(i, r). (i, r ''ratio'')) (rows g))) of
                Inl e \<Rightarrow> Inl e
              | Inr qs \<Rightarrow> Inr (pearson corr (finite_pairs qs))) \<and>
           (distinct (map fst (rows g)) \<longrightarrow>
              align_inner (map (\<lambda>(i, r). (i, r ''ratio'')) (rows s))
                          (map (\<lambda>(i, r). (i, r ''ratio'')) (rows g)) =
                List.map_filter
                  (\<lambda>(i, l). map_option (\<lambda>r. (l ''ratio'', r ''ratio'')) (map_of (rows g) i))
                  (rows s))"
proof -
  let ?a = "map (\<lambda>(i, r). (i, r ''ratio'')) (rows s)"
  let ?b = "map (\<lambda>(i, r). (i, r ''ratio'')) (rows g)"
  let ?rows = "concat (map (\<lambda>(i, l).
                     map (\<lambda>(j, r). join_row l r)
                       (filter (\<lambda>(j, r). r ''period'' = l ''period'') (rows g)))
                     (rows s))"
  let ?out = "\<lparr>columns = [''period'', ''ratio_s'', ''ratio_g''], rows = enumerate 0 ?rows\<rparr>"
  have m: "merge_on_period s g = Inr ?out"
    using assms by (simp add: merge_on_period_def)
  have c: "columns ?out = [''period'', ''ratio_s'', ''ratio_g'']"
    by simp
  have "set ?rows =
          {join_row (snd p) (snd q) | p q.
             p \<in> set (rows s) \<and> q \<in> set (rows g) \<and> snd q ''period'' = snd p ''period''}"
    unfolding case_prod_unfold by (rule set_nested_join)
  also have "\<dots> =
          {join_row l r | l r. (\<exists>i. (i, l) \<in> set (rows s)) \<and> (\<exists>j. (j, r) \<in> set (rows g)) \<and>
                               l ''period'' = r ''period''}"
  proof (intro set_eqI iffI)
    fix x
    assume "x \<in> {join_row (snd p) (snd q) | p q.
             p \<in> set (rows s) \<and> q \<in> set (rows g) \<and> snd q ''period'' = snd p ''period''}"
    then obtain p q where "x = join_row (snd p) (snd q)" "p \<in> set (rows s)" "q \<in> set (rows g)"
      "snd q ''period'' = snd p ''period''"
      by blast
    then have "x = join_row (snd p) (snd q) \<and> (fst p, snd p) \<in> set (rows s) \<and>
               (fst q, snd q) \<in> set (rows g) \<and> snd p ''period'' = snd q ''period''"
      by simp
    then show "x \<in> {join_row l r | l r. (\<exists>i. (i, l) \<in> set (rows s)) \<and>
                 (\<exists>j. (j, r) \<in> set (rows g)) \<and> l ''period'' = r ''period''}"
      by blast
  next
    fix x
    assume "x \<in> {join_row l r | l r. (\<exists>i. (i, l) \<in> set (rows s)) \<and>
                 (\<exists>j. (j, r) \<in> set (rows g)) \<and> l ''period'' = r ''period''}"
    then obtain l r i j where "x = join_row l r" "(i, l) \<in> set (rows s)" "(j, r) \<in> set (rows g)"
      "l ''period'' = r ''period''"
      by blast
    then have "x = join_row (snd (i, l)) (snd (j, r)) \<and> (i, l) \<in> set (rows s) \<and>
               (j, r) \<in> set (rows g) \<and> snd (j, r) ''period'' = snd (i, l) ''period''"
      by simp
    then show "x \<in> {join_row (snd p) (snd q) | p q.
             p \<in> set (rows s) \<and> q \<in> set (rows g) \<and> snd q ''period'' = snd p ''period''}"
      by blast
  qed
  finally have r: "snd ` set (rows ?out) =
          {join_row l r | l r. (\<exists>i. (i, l) \<in> set (rows s)) \<and> (\<exists>j. (j, r) \<in> set (rows g)) \<and>
                               l ''period'' = r ''period''}"
    by (simp add: set_enumerate_values)
  have a: "set (align_inner ?a ?b) =
             {(l ''ratio'', r ''ratio'') | l r. \<exists>i. (i, l) \<in> set (rows s) \<and> (i, r) \<in> set (rows g)}"
    unfolding set_align_inner by force
  have h: "headline_corr corr s g = series_corr corr ?a ?b"
    by (rule headline_corr_series [OF assms(2) assms(4)])
  have p: "headline_corr corr s g =
             (case numeric_pairs (align_inner ?a ?b) of
                Inl e \<Rightarrow> Inl e
              | Inr qs \<Rightarrow> Inr (pearson corr (finite_pairs qs)))"
    unfolding h by (simp add: series_corr_def Let_def pearson_def)
  have l: "distinct (map fst (rows g)) \<longrightarrow>
             align_inner ?a ?b =
               List.map_filter
                 (\<lambda>(i, l). map_option (\<lambda>r. (l ''ratio'', r ''ratio'')) (map_of (rows g) i))
                 (rows s)"
    by (simp add: align_inner_columns)
  show ?thesis
    by (rule exI [of _ ?out], intro conjI) (fact m c r h a p l)+
qed

lemma columns_ex_asc:
  "columns ex_asc = [''period'', ''ratio'', ''month'', ''year'', ''dayofweek'', ''is_weekend'']"
  by (simp add: ex_asc_def add_calendar_columns_def columns_assign)

lemma columns_ex_desc:
  "columns ex_desc = [''period'', ''ratio'', ''month'', ''year'', ''dayofweek'', ''is_weekend'']"
  by (simp add: ex_desc_def add_calendar_columns_def columns_assign)

lemma corrcoef_ex_falling: "corrcoef_exact [(1, 6), (2, 4), (3, 2)] = Fin (- 1)"
  by (simp add: corrcoef_exact_def Let_def)

text \<open>
  Both example tables hold 1, 2 and 3 July 2024, the second in descending order. The
  merged table pairs the ratios by day, (1, 6), (2, 4), (3, 2), pairs whose coefficient
  is -1; the headline correlation pairs them by index label, (1, 2), (2, 4), (3, 6),
  and is 1. (numpy's arithmetic is exact on both lists of pairs.)
\<close>

theorem merge_joins_on_period_corr_on_index_witness:
  "''period'' \<in> set (columns ex_asc) \<and> ''ratio'' \<in> set (columns ex_asc) \<and>
   ''period'' \<in> set (columns ex_desc) \<and> ''ratio'' \<in> set (columns ex_desc) \<and>
   distinct (map fst (rows ex_desc)) \<and>
   (\<exists>out. merge_on_period ex_asc ex_desc = Inr out \<and>
      map (\<lambda>(i, r). (r ''period'', r ''ratio_s'', r ''ratio_g'')) (rows out) =
        [(Some (CDate (Date 2024 7 1)), Some (CFloat (Fin 1)), Some (CFloat (Fin 6))),
         (Some (CDate (Date 2024 7 2)), Some (CFloat (Fin 2)), Some (CFloat (Fin 4))),
         (Some (CDate (Date 2024 7 3)), Some (CFloat (Fin 3)), Some (CFloat (Fin 2)))]) \<and>
   corrcoef_exact [(1, 6), (2, 4), (3, 2)] = Fin (- 1) \<and>
   align_inner (map (\<lambda>(i, r). (i, r ''ratio'')) (rows ex_asc))
               (map (\<lambda>(i, r). (i, r ''ratio'')) (rows ex_desc)) =
     [(Some (CFloat (Fin 1)), Some (CFloat (Fin 2))),
      (Some (CFloat (Fin 2)), Some (CFloat (Fin 4))),
      (Some (CFloat (Fin 3)), Some (CFloat (Fin 6)))] \<and>
   headline_corr corrcoef_exact ex_asc ex_desc = Inr (Fin 1)"
proof -
  let ?a = "map (\<lambda>(i, r). (i, r ''ratio'')) (rows ex_asc)"
  let ?b = "map (\<lambda>(i, r). (i, r ''ratio'')) (rows ex_desc)"
  have c: "''period'' \<in> set (columns ex_asc)" "''ratio'' \<in> set (columns ex_asc)"
    "''period'' \<in> set (columns ex_desc)" "''ratio'' \<in> set (columns ex_desc)"
    by (simp_all add: columns_ex_asc columns_ex_desc)
  have d: "distinct (map fst (rows ex_desc))"
    by (simp add: ex_desc_def rows_add_calendar_columns)
  from merge_joins_on_period_corr_on_index [OF c, of corrcoef_exact] obtain out :: frame where
    t: "headline_corr corrcoef_exact ex_asc ex_desc =
          (case numeric_pairs (align_inner ?a ?b) of
             Inl e \<Rightarrow> Inl e
           | Inr qs \<Rightarrow> Inr (pearson corrcoef_exact (finite_pairs qs)))"
    and l: "distinct (map fst (rows ex_desc)) \<longrightarrow>
             align_inner ?a ?b =
               List.map_filter
                 (\<lambda>(i, l). map_option (\<lambda>r. (l ''ratio'', r ''ratio'')) (map_of (rows ex_desc) i))
                 (rows ex_asc)"
    by (elim exE conjE)
  from l d have "align_inner ?a ?b =
               List.map_filter
                 (\<lambda>(i, l). map_option (\<lambda>r. (l ''ratio'', r ''ratio'')) (map_of (rows ex_desc) i))
                 (rows ex_asc)"
    by (rule mp)
  then have a: "align_inner ?a ?b =
     [(Some (CFloat (Fin 1)), Some (CFloat (Fin 2))),
      (Some (CFloat (Fin 2)), Some (CFloat (Fin 4))),
      (Some (CFloat (Fin 3)), Some (CFloat (Fin 6)))]"
    by (simp add: ex_asc_def ex_desc_def rows_add_calendar_columns)
  from t have h: "headline_corr corrcoef_exact ex_asc ex_desc = Inr (Fin 1)"
    unfolding a by (simp add: pearson_def corrcoef_ex)
  have m: "\<exists>out. merge_on_period ex_asc ex_desc = Inr out \<and>
      map (\<lambda>(i, r). (r ''period'', r ''ratio_s'', r ''ratio_g'')) (rows out) =
        [(Some (CDate (Date 2024 7 1)), Some (CFloat (Fin 1)), Some (CFloat (Fin 6))),
         (Some (CDate (Date 2024 7 2)), Some (CFloat (Fin 2)), Some (CFloat (Fin 4))),
         (Some (CDate (Date 2024 7 3)), Some (CFloat (Fin 3)), Some (CFloat (Fin 2)))]"
    by (simp add: merge_on_period_def c)
      (simp add: ex_asc_def ex_desc_def rows_add_calendar_columns join_row_def)
  from c d m corrcoef_ex_falling a h show ?thesis
    by (intro conjI)
qed

section \<open>Where the correlation is NaN\<close>

lemma pearson_short: "length ps < 2 \<Longrightarrow> pearson corr ps = NaN"
  by (simp add: pearson_def)

lemma numeric_cells:
  "numeric s = Inr vs \<Longrightarrow> (i, c) \<in> set s \<Longrightarrow> \<exists>v. v \<in> set vs \<and> to_float c = Inr v"
proof (induction s arbitrary: vs)
  case Nil
  then show ?case by simp
next
  case (Cons p s)
  obtain j c' where p: "p = (j, c')"
    by (cases p)
  from Cons.prems(1) p obtain v' vs' where
    v: "to_float c' = Inr v'" "numeric s = Inr vs'" "vs = v' # vs'"
    by (auto split: sum.splits)
  show ?case
  proof (cases "(i, c) = p")
    case True
    with p v show ?thesis by auto
  next
    case False
    with Cons.prems(2) have "(i, c) \<in> set s"
      by simp
    from Cons.IH [OF v(2) this] v(3) show ?thesis
      by auto
  qed
qed

lemma numeric_pairs_Inr:
  assumes "\<forall>(x, y) \<in> set ps. (\<exists>u \<in> U. to_float x = Inr u) \<and> (\<exists>v \<in> V. to_float y = Inr v)"
  shows "\<exists>qs. numeric_pairs ps = Inr qs \<and> length qs = length ps \<and> set qs \<subseteq> U \<times> V"
  using assms
proof (induction ps)
  case Nil
  then show ?case by simp
next
  case (Cons p ps)
  obtain x y where p: "p = (x, y)"
    by (cases p)
  from Cons.prems p obtain u v where uv: "u \<in> U" "to_float x = Inr u" "v \<in> V" "to_float y = Inr v"
    by auto
  from Cons.IH Cons.prems obtain qs where
    "numeric_pairs ps = Inr qs" "length qs = length ps" "set qs \<subseteq> U \<times> V"
    by auto
  with p uv show ?case
    by auto
qed

lemma length_finite_pairs: "length (finite_pairs qs) \<le> length qs"
  by (induction qs rule: finite_pairs.induct) auto

lemma set_finite_pairs: "(x, y) \<in> set (finite_pairs qs) \<Longrightarrow> (Fin x, Fin y) \<in> set qs"
  by (induction qs rule: finite_pairs.induct) auto

lemma matches_le_one:
  "distinct (map fst b) \<Longrightarrow> length (filter (\<lambda>(j, y). j = i) b) \<le> 1"
proof (induction b)
  case Nil
  then show ?case by simp
next
  case (Cons p b)
  obtain j y where p: "p = (j, y)"
    by (cases p)
  show ?case
  proof (cases "j = i")
    case True
    with Cons.prems p have "i \<notin> fst ` set b"
      by auto
    then have "filter (\<lambda>(j, y). j = i) b = []"
      by (force simp: filter_empty_conv)
    with p True show ?thesis by simp
  next
    case False
    with Cons p show ?thesis by simp
  qed
qed

lemma length_align_inner_left:
  "distinct (map fst b) \<Longrightarrow> length (align_inner a b) \<le> length a"
proof (induction a)
  case Nil
  then show ?case by (simp add: align_inner_def)
next
  case (Cons p a)
  obtain i x where p: "p = (i, x)"
    by (cases p)
  have "length (align_inner (p # a) b) =
          length (filter (\<lambda>(j, y). j = i) b) + length (align_inner a b)"
    by (simp add: align_inner_def p)
  with matches_le_one [OF Cons.prems, of i] Cons.IH [OF Cons.prems] show ?case
    by simp
qed

lemma length_filter_disjoint:
  "(\<And>x. \<not> (P x \<and> Q x)) \<Longrightarrow>
   length (filter P xs) + length (filter Q xs) = length (filter (\<lambda>x. P x \<or> Q x) xs)"
  by (induction xs) auto

lemma length_align_inner_matched:
  "distinct (map fst a) \<Longrightarrow>
   length (align_inner a b) = length (filter (\<lambda>q. fst q \<in> fst ` set a) b)"
proof (induction a)
  case Nil
  then show ?case by (simp add: align_inner_def)
next
  case (Cons p a)
  obtain i x where p: "p = (i, x)"
    by (cases p)
  from Cons.prems p have d: "distinct (map fst a)" and n: "i \<notin> fst ` set a"
    by auto
  have "length (align_inner (p # a) b) =
          length (filter (\<lambda>q. fst q = i) b) + length (align_inner a b)"
    by (simp add: align_inner_def p case_prod_unfold)
  also have "\<dots> = length (filter (\<lambda>q. fst q = i) b) +
                   length (filter (\<lambda>q. fst q \<in> fst ` set a) b)"
    by (simp add: Cons.IH [OF d])
  also have "\<dots> = length (filter (\<lambda>q. fst q = i \<or> fst q \<in> fst ` set a) b)"
    using n by (intro length_filter_disjoint) auto
  finally show ?case
    by (simp add: p)
qed

lemma length_align_inner_right:
  "distinct (map fst a) \<Longrightarrow> length (align_inner a b) \<le> length b"
  by (simp add: length_align_inner_matched)


text \<open>
  The headline correlation of two tables with numeric ratio columns and unique index
  labels never raises, and it is NaN when one of the tables has fewer than two rows.
  (Nothing of the kind is stated for a constant column: the exact quotient is 0/0
  there, but the mean that numpy computes of a constant column can differ from the
  constant in the last bit, and the result then is a number.)
\<close>

lemma headline_corr_nan_cases:
  assumes cs: "''ratio'' \<in> set (columns s)" and cg: "''ratio'' \<in> set (columns g)"
    and ns: "numeric (map (\<lambda>(i, r). (i, r ''ratio'')) (rows s)) = Inr xs"
    and ng: "numeric (map (\<lambda>(i, r). (i, r ''ratio'')) (rows g)) = Inr ys"
    and ds: "distinct (map fst (rows s))" and dg: "distinct (map fst (rows g))"
  shows "\<exists>v. headline_corr corr s g = Inr v"
    and "length (rows s) < 2 \<or> length (rows g) < 2 \<Longrightarrow> headline_corr corr s g = Inr NaN"
proof -
  let ?a = "map (\<lambda>(i, r). (i, r ''ratio'')) (rows s)"
  let ?b = "map (\<lambda>(i, r). (i, r ''ratio'')) (rows g)"
  let ?ps = "align_inner ?a ?b"
  have h: "headline_corr corr s g = series_corr corr ?a ?b"
    by (rule headline_corr_series [OF cs cg])
  have "\<forall>(x, y) \<in> set ?ps. (\<exists>u \<in> set xs. to_float x = Inr u) \<and> (\<exists>v \<in> set ys. to_float y = Inr v)"
    using numeric_cells [OF ns] numeric_cells [OF ng]
    by (fastforce simp: set_align_inner)
  from numeric_pairs_Inr [OF this] obtain qs where
    qs: "numeric_pairs ?ps = Inr qs" "length qs = length ?ps" "set qs \<subseteq> set xs \<times> set ys"
    by blast
  have sc: "series_corr corr ?a ?b =
              Inr (if ?ps = [] then NaN else pearson corr (finite_pairs qs))"
    by (simp add: series_corr_def Let_def qs(1))
  show "\<exists>v. headline_corr corr s g = Inr v"
    by (simp add: h sc)
  have da: "distinct (map fst ?a)" and db: "distinct (map fst ?b)"
    by (simp_all only: labels_of_column ds dg)
  have la: "length ?ps \<le> length (rows s)"
    using length_align_inner_left [OF db, of ?a] by simp
  have lb: "length ?ps \<le> length (rows g)"
    using length_align_inner_right [OF da, of ?b] by simp
  show "headline_corr corr s g = Inr NaN" if "length (rows s) < 2 \<or> length (rows g) < 2"
  proof -
    from that la lb have "length ?ps < 2"
      by auto
    with length_finite_pairs [of qs] qs(2) have "length (finite_pairs qs) < 2"
      by simp
    then show ?thesis
      by (simp add: h sc pearson_short)
  qed
qed


section \<open>Properties of the loader\<close>

lemma parse_ex: "parse_iso_date ''2024-01-01'' = Some (Date 2024 1 1)"
  by (simp add: parse_iso_date_def digit_def valid_date_def days_in_month_def)

lemma glob_s_ex:
  "glob_glob ex_fs ''data'' s_pattern =
     [''data/'' @ sulbing @ ''_search_trend_2025-01.csv'',
      ''data/'' @ sulbing @ ''_search_trend_2024-01.csv'']"
  by (simp add: glob_glob_def ex_fs_def s_pattern_def sulbing_def gifticon_def ishidden_def
      os_path_join_def)


lemma glob_g_ex:
  "glob_glob ex_fs ''data'' g_pattern =
     [''data/'' @ sulbing @ '' '' @ gifticon @ ''_search_trend_2025-01.csv'']"
  by (simp add: glob_glob_def ex_fs_def g_pattern_def sulbing_def gifticon_def ishidden_def
      os_path_join_def)

lemma derive_ex_2024:
  "derive_columns to_datetime_iso
     \<lparr>columns = [''period'', ''ratio''],
      rows = [(0, [''period'' \<mapsto> CStr ''2024-01-01'', ''ratio'' \<mapsto> CFloat (Fin 44)])]\<rparr> =
   Inr (add_calendar_columns
     \<lparr>columns = [''period'', ''ratio''],
      rows = [(0, [''period'' \<mapsto> CStr ''2024-01-01'', ''ratio'' \<mapsto> CFloat (Fin 44),
                   ''period'' \<mapsto> CDate (Date 2024 1 1)])]\<rparr>)"
  by (simp add: derive_columns_def parse_period_def parse_ex)

lemma parse_ex_2025: "parse_iso_date ''2025-01-01'' = Some (Date 2025 1 1)"
  by (simp add: parse_iso_date_def digit_def valid_date_def days_in_month_def)

lemma derive_ex_2025:
  "derive_columns to_datetime_iso
     \<lparr>columns = [''period'', ''ratio''],
      rows = [(0, [''period'' \<mapsto> CStr ''2025-01-01'', ''ratio'' \<mapsto> CFloat (Fin v)])]\<rparr> =
   Inr (add_calendar_columns
     \<lparr>columns = [''period'', ''ratio''],
      rows = [(0, [''period'' \<mapsto> CStr ''2025-01-01'', ''ratio'' \<mapsto> CFloat (Fin v),
                   ''period'' \<mapsto> CDate (Date 2025 1 1)])]\<rparr>)"
  by (simp add: derive_columns_def parse_period_def parse_ex_2025)

lemma load_ex:
  "load_sulbing_data to_datetime_iso ex_fs =
     Inr (Some
       (add_calendar_columns
          \<lparr>columns = [''period'', ''ratio''],
           rows = [(0, [''period'' \<mapsto> CStr ''2024-01-01'', ''ratio'' \<mapsto> CFloat (Fin 44),
                        ''period'' \<mapsto> CDate (Date 2024 1 1)])]\<rparr>,
        add_calendar_columns
          \<lparr>columns = [''period'', ''ratio''],
           rows = [(0, [''period'' \<mapsto> CStr ''2025-01-01'', ''ratio'' \<mapsto> CFloat (Fin 33),
                        ''period'' \<mapsto> CDate (Date 2025 1 1)])]\<rparr>))"
proof -
  have f: "find (fs_exists ex_fs) possible_paths = Some ''data''"
    by (simp add: possible_paths_def ex_fs_def)
  have s: "fs_read_csv ex_fs (last (glob_glob ex_fs ''data'' s_pattern)) =
             Some \<lparr>columns = [''period'', ''ratio''],
                    rows = [(0, [''period'' \<mapsto> CStr ''2024-01-01'', ''ratio'' \<mapsto> CFloat (Fin 44)])]\<rparr>"
    unfolding glob_s_ex by (simp add: ex_fs_def sulbing_def)
  have g: "fs_read_csv ex_fs (last (glob_glob ex_fs ''data'' g_pattern)) =
             Some \<lparr>columns = [''period'', ''ratio''],
                    rows = [(0, [''period'' \<mapsto> CStr ''2025-01-01'', ''ratio'' \<mapsto> CFloat (Fin 33)])]\<rparr>"
    unfolding glob_g_ex by (simp add: ex_fs_def sulbing_def gifticon_def)
  have n: "glob_glob ex_fs ''data'' s_pattern \<noteq> []" "glob_glob ex_fs ''data'' g_pattern \<noteq> []"
    unfolding glob_s_ex glob_g_ex by simp_all
  show ?thesis
    unfolding load_sulbing_data_def f
    by (simp add: Let_def n s g derive_ex_2024 derive_ex_2025 del: fun_upd_apply)
qed

lemma sorted_last_Max:
  fixes xs :: "string list"
  assumes "sorted xs" and "xs \<noteq> []"
  shows "last xs = Max (set xs)"
proof -
  have "\<forall>x \<in> set xs. x \<le> last xs"
    using assms by (induction xs) (auto split: if_splits)
  moreover have "last xs \<in> set xs"
    using assms(2) by simp
  ultimately show ?thesis
    by (metis List.finite_set Max_eqI)
qed

text \<open>
  Claim C1, at an input where it fails. The directory enumerates the 2025 file of the
  first series before the 2024 file. The glob result keeps that order, its last
  element is the 2024 file, whose name is the smaller one, and the loaded table holds
  the row of the 2024 file.
\<close>

theorem loader_takes_last_enumerated:
  "glob_glob ex_fs ''data'' s_pattern =
     [''data/'' @ sulbing @ ''_search_trend_2025-01.csv'',
      ''data/'' @ sulbing @ ''_search_trend_2024-01.csv''] \<and>
   ''data/'' @ sulbing @ ''_search_trend_2024-01.csv''
     < ''data/'' @ sulbing @ ''_search_trend_2025-01.csv'' \<and>
   (\<exists>s g. load_sulbing_data to_datetime_iso ex_fs = Inr (Some (s, g)) \<and>
      map (\<lambda>(i, r). (r ''period'', r ''ratio'')) (rows s) =
        [(Some (CDate (Date 2024 1 1)), Some (CFloat (Fin 44)))])"
proof -
  have "''data/'' @ sulbing @ ''_search_trend_2024-01.csv''
     < ''data/'' @ sulbing @ ''_search_trend_2025-01.csv''"
    by (simp add: sulbing_def)
  moreover have "\<exists>s g. load_sulbing_data to_datetime_iso ex_fs = Inr (Some (s, g)) \<and>
      map (\<lambda>(i, r). (r ''period'', r ''ratio'')) (rows s) =
        [(Some (CDate (Date 2024 1 1)), Some (CFloat (Fin 44)))]"
    unfolding load_ex by (simp add: rows_add_calendar_columns)
  ultimately show ?thesis
    using glob_s_ex by (intro conjI)
qed

section \<open>Properties of the search box\<close>

lemma columns_ex_brand:
  "columns ex_brand = [''period'', ''ratio'', ''month'', ''year'', ''dayofweek'', ''is_weekend'']"
  by (simp add: ex_brand_def add_calendar_columns_def columns_assign)

lemma columns_ex_card:
  "columns ex_card = [''period'', ''ratio'', ''month'', ''year'', ''dayofweek'', ''is_weekend'']"
  by (simp add: ex_card_def add_calendar_columns_def columns_assign)

lemma columns_ex_display:
  "columns ex_display =
     [''period'', ''ratio'', ''month'', ''year'', ''dayofweek'', ''is_weekend'', ''quarter'']"
  by (simp add: ex_display_def pd_concat_def with_quarter_def columns_assign columns_ex_brand
      columns_ex_card)

lemma friday: "day_name (Date 2024 1 5) = ''Friday''"
  by (simp add: day_name_def dayofweek_def sakamoto_arr_def DAYS_def)

lemma rows_ex_brand:
  "rows ex_brand =
     [(0, [''period'' \<mapsto> CDate (Date 2024 1 5), ''ratio'' \<mapsto> CInt 50, ''month'' \<mapsto> CInt 1,
           ''year'' \<mapsto> CInt 2024, ''dayofweek'' \<mapsto> CStr ''Friday'', ''is_weekend'' \<mapsto> CBool False])]"
  by (simp add: ex_brand_def rows_add_calendar_columns holds_nat_def int_field_def friday
      dayofweek_def sakamoto_arr_def)

lemma rows_ex_card:
  "rows ex_card =
     [(0, [''period'' \<mapsto> CDate (Date 2024 1 5), ''ratio'' \<mapsto> CInt 20, ''month'' \<mapsto> CInt 1,
           ''year'' \<mapsto> CInt 2024, ''dayofweek'' \<mapsto> CStr ''Friday'', ''is_weekend'' \<mapsto> CBool False])]"
  by (simp add: ex_card_def rows_add_calendar_columns holds_nat_def int_field_def friday
      dayofweek_def sakamoto_arr_def)

lemma rows_with_quarter_ex_brand:
  "rows (with_quarter ex_brand) =
     [(0, [''period'' \<mapsto> CDate (Date 2024 1 5), ''ratio'' \<mapsto> CInt 50, ''month'' \<mapsto> CInt 1,
           ''year'' \<mapsto> CInt 2024, ''dayofweek'' \<mapsto> CStr ''Friday'', ''is_weekend'' \<mapsto> CBool False,
           ''quarter'' \<mapsto> CInt 1])]"
  by (simp add: with_quarter_def rows_assign holds_nat_def rows_ex_brand int_field_def
      quarter_of_def)

lemma columns_with_quarter_ex_brand:
  "columns (with_quarter ex_brand) =
     [''period'', ''ratio'', ''month'', ''year'', ''dayofweek'', ''is_weekend'', ''quarter'']"
  by (simp add: with_quarter_def columns_assign columns_ex_brand)

text \<open>
  The texts of the combined table. The second table has no \<open>quarter\<close> column: its row
  is filled with NaN there, and the quarter of the first row becomes the float 1.0.
\<close>

lemma texts_ex_display:
  "map (\<lambda>(i, r). row_texts repr_whole (columns ex_display) r) (rows ex_display) =
     [ [''2024-01-05'', ''50'', ''1'', ''2024'', ''Friday'', ''False'', ''1.0''],
      [''2024-01-05'', ''20'', ''1'', ''2024'', ''Friday'', ''False'', ''nan'']]"
  unfolding columns_ex_display
  by (simp add: ex_display_def pd_concat_def rows_with_quarter_ex_brand rows_ex_card
      columns_with_quarter_ex_brand columns_ex_card
      row_texts_def widen_row_def fill_value_def is_time_def unify_dtypes_def float_column_def
      is_float_def is_number_def upcast_def
      str_date_def str_int_def digit_char_def zero_pad_def repr_whole_def)

text \<open>
  A column that both tables have is unified as well: whole ratios of one table next to
  fractional ratios of the other are floats in the combined table.
\<close>

lemma concat_unifies_shared_column:
  "map (\<lambda>(i, r). r ''ratio'')
     (rows (pd_concat \<lparr>columns = [''ratio''], rows = [(0, [''ratio'' \<mapsto> CInt 50])]\<rparr>
                      \<lparr>columns = [''ratio''], rows = [(0, [''ratio'' \<mapsto> CFloat (Fin 20.5)])]\<rparr>)) =
     [Some (CFloat (Fin 50)), Some (CFloat (Fin 20.5))]"
  by (simp add: pd_concat_def widen_row_def unify_dtypes_def float_column_def is_float_def
      is_number_def upcast_def)

lemma re_ex: "re_search ''2024.01'' ''2024-01-05''"
  by (simp add: lower_char_def)

lemma no_literal:
  "\<not> list_ex (contains_ci ''2024.01'')
       [''2024-01-05'', ''50'', ''1'', ''2024'', ''Friday'', ''False'', ''1.0'']"
  "\<not> list_ex (contains_ci ''2024.01'')
       [''2024-01-05'', ''20'', ''1'', ''2024'', ''Friday'', ''False'', ''nan'']"
  by (simp_all add: contains_ci_def lower_char_def sublist_Cons_right)


lemma search_mask_texts:
  "map (\<lambda>(i, r). list_ex P (row_texts repr cols r)) rs =
     map (list_ex P) (map (\<lambda>(i, r). row_texts repr cols r) rs)"
  by (simp add: case_prod_unfold o_def)

lemma boolean_index_all:
  assumes "keep = map (\<lambda>x. True) (rows df)"
  shows "boolean_index df keep = df"
proof -
  have "map fst (filter snd (zip xs (map (\<lambda>x. True) xs))) = xs" for xs :: "(nat \<times> row) list"
    by (induction xs) auto
  with assms show ?thesis
    by (simp add: boolean_index_def)
qed

lemma boolean_index_none:
  assumes "keep = map (\<lambda>x. False) (rows df)"
  shows "rows (boolean_index df keep) = []"
proof -
  have "map fst (filter snd (zip xs (map (\<lambda>x. False) xs))) = []" for xs :: "(nat \<times> row) list"
    by (induction xs) auto
  with assms show ?thesis
    by (simp add: boolean_index_def)
qed

lemma length_rows_ex_display: "length (rows ex_display) = 2"
  by (simp add: ex_display_def pd_concat_def unify_dtypes_def with_quarter_def rows_assign
      ex_brand_def ex_card_def rows_add_calendar_columns)

lemma two_constant: "length xs = 2 \<Longrightarrow> map (\<lambda>x. c) xs = [c, c]"
  by (cases xs; cases "tl xs") auto

text \<open>
  Claim C3, at an input where it fails. Each series has one row, for 5 January 2024.
  None of the texts of the two rows of the combined table contains \<open>2024.01\<close>, so the
  claim keeps no row; pandas reads the query as a regular expression, whose dot
  matches the hyphen of \<open>2024-01-05\<close>, and both rows are displayed.
\<close>

theorem search_reads_query_as_regex:
  "map (\<lambda>(i, r). row_texts repr_whole (columns ex_display) r) (rows ex_display) =
     [ [''2024-01-05'', ''50'', ''1'', ''2024'', ''Friday'', ''False'', ''1.0''],
      [''2024-01-05'', ''20'', ''1'', ''2024'', ''Friday'', ''False'', ''nan'']] \<and>
   displayed_table re_compile_dots repr_whole ''2024.01'' ex_display = Inr ex_display \<and>
   rows (literal_search repr_whole ''2024.01'' ex_display) = []"
proof -
  have found: "map (\<lambda>(i, r). list_ex (re_search ''2024.01'')
                    (row_texts repr_whole (columns ex_display) r)) (rows ex_display) =
               map (\<lambda>x. True) (rows ex_display)"
    unfolding search_mask_texts texts_ex_display two_constant [OF length_rows_ex_display]
    by (simp add: re_ex)
  have lit: "map (\<lambda>(i, r). list_ex (contains_ci ''2024.01'')
                    (row_texts repr_whole (columns ex_display) r)) (rows ex_display) =
               map (\<lambda>x. False) (rows ex_display)"
    unfolding search_mask_texts texts_ex_display two_constant [OF length_rows_ex_display]
    using no_literal by simp
  have a: "displayed_table re_compile_dots repr_whole ''2024.01'' ex_display = Inr ex_display"
    by (simp add: displayed_table_def search_rows_def re_compile_dots_def
        boolean_index_all [OF found])
  have b: "rows (literal_search repr_whole ''2024.01'' ex_display) = []"
    unfolding literal_search_def by (rule boolean_index_none [OF lit])
  from texts_ex_display a b show ?thesis
    by (intro conjI)
qed

lemma displayed_table_empty_query: "displayed_table re_compile repr [] df = Inr df"
  by (simp add: displayed_table_def)

text \<open>
  On a query without a dot the instance \<open>re_compile_dots\<close> is the literal search up to
  ASCII case, so for such a query the displayed table is the one the claim on the
  search box describes.
\<close>

lemma match_here_prefix:
  "CHR ''.'' \<notin> set p \<Longrightarrow> match_here p s = prefix (map lower_char p) (map lower_char s)"
  by (induction p s rule: match_here.induct) auto

lemma re_search_contains_ci: "CHR ''.'' \<notin> set p \<Longrightarrow> re_search p s = contains_ci p s"
proof (induction s)
  case Nil
  then show ?case
    by (cases p) (simp_all add: contains_ci_def)
next
  case (Cons c cs)
  then show ?case
    by (simp add: contains_ci_def match_here_prefix sublist_Cons_right)
qed

lemma displayed_table_plain_query:
  assumes "q \<noteq> []" and "CHR ''.'' \<notin> set q"
  shows "displayed_table re_compile_dots repr q df = Inr (literal_search repr q df)"
proof -
  have "re_search q = contains_ci q"
    using assms(2) by (auto simp: re_search_contains_ci)
  with assms(1) show ?thesis
    by (simp add: displayed_table_def search_rows_def re_compile_dots_def literal_search_def)
qed

section \<open>Properties of the script: which statements change a table\<close>

lemma new_frame_effect:
  assumes "new_frame name expr st = Inr st'"
  shows "\<exists>df. expr st = Inr df \<and> heap st' = heap st @ [df] \<and>
              env st' = (env st)(name \<mapsto> length (heap st)) \<and> ui st' = ui st"
  using assms by (auto simp: new_frame_def split: sum.splits)

lemma update_frame_effect:
  assumes "update_frame name change st = Inr st'"
  shows "\<exists>a df. env st name = Some a \<and> a < length (heap st) \<and> change (heap st ! a) = Inr df \<and>
                heap st' = (heap st)[a := df] \<and> env st' = env st \<and> ui st' = ui st"
  using assms by (auto simp: update_frame_def split: sum.splits option.splits if_splits)

lemma lines_126_139_effect:
  assumes "lines_126_139 fixed corr st = Inr st'"
  shows "heap st' = heap st \<and> env st' = env st"
  using assms by (auto simp: lines_126_139_def split: sum.splits)

lemma run_Cons_Inr:
  assumes "run (stmt # stmts) st = Inr st'"
  shows "\<exists>st1. stmt st = Inr st1 \<and> run stmts st1 = Inr st'"
  using assms by (auto split: sum.splits)

text \<open>Statements that build a new frame leave every existing object as it was.\<close>

lemma new_frame_prefix: "new_frame name expr st = Inr st' \<Longrightarrow> prefix (heap st) (heap st')"
  by (auto dest: new_frame_effect)

lemma builders_prefix:
  assumes "stmt \<in> set [line_116 yf, line_117 yf, lines_126_139 fixed corr, line_184, line_192,
                        line_207, line_234, lines_235_236 rc repr q]"
    and "stmt st = Inr st'"
  shows "prefix (heap st) (heap st')"
proof -
  consider "stmt = line_116 yf" | "stmt = line_117 yf" | "stmt = lines_126_139 fixed corr"
    | "stmt = line_184" | "stmt = line_192" | "stmt = line_207" | "stmt = line_234"
    | "stmt = lines_235_236 rc repr q"
    using assms(1) by auto
  then show ?thesis
  proof cases
    case 1
    with assms(2) show ?thesis by (auto simp: line_116_def dest: new_frame_prefix)
  next
    case 2
    with assms(2) show ?thesis by (auto simp: line_117_def dest: new_frame_prefix)
  next
    case 3
    with assms(2) show ?thesis by (auto dest: lines_126_139_effect)
  next
    case 4
    with assms(2) show ?thesis by (auto simp: line_184_def dest: new_frame_prefix)
  next
    case 5
    with assms(2) show ?thesis by (auto simp: line_192_def dest: new_frame_prefix)
  next
    case 6
    with assms(2) show ?thesis by (auto simp: line_207_def dest: new_frame_prefix)
  next
    case 7
    with assms(2) show ?thesis by (auto simp: line_234_def dest: new_frame_prefix)
  next
    case 8
    with assms(2) show ?thesis
      by (auto simp: lines_235_236_def dest: new_frame_prefix split: if_splits)
  qed
qed

lemma line_191_effect:
  assumes "line_191 st = Inr st'"
  shows "\<exists>a. env st ''df_s_filtered'' = Some a \<and> a < length (heap st) \<and>
             heap st' = (heap st)[a := with_quarter (heap st ! a)] \<and>
             env st' = env st"
  using update_frame_effect [OF assms [unfolded line_191_def]]
  by (auto simp: add_quarter_def split: if_splits)

lemma line_193_effect:
  assumes "line_193 repr st = Inr st'"
  shows "\<exists>a. env st ''q_sum'' = Some a \<and> a < length (heap st) \<and>
             heap st' = (heap st)[a := assign ''quarter''
                (\<lambda>r. CStr (str_cell repr (r ''quarter'') @ bungi)) (heap st ! a)] \<and>
             env st' = env st"
  using update_frame_effect [OF assms [unfolded line_193_def]]
  by (auto simp: label_quarters_def split: if_splits)


text \<open>The state after lines 116 to 184, and after line 191.\<close>

lemma run_to_184:
  assumes "run [line_116 yf, line_117 yf, lines_126_139 fixed corr, line_184] (loaded s g) = Inr st"
  shows "\<exists>fs fg da. filterByYears s yf = Inr fs \<and> filterByYears g yf = Inr fg \<and>
           day_avg fs = Inr da \<and> heap st = [s, g, fs, fg, da] \<and>
           env st = [''df_s'' \<mapsto> 0, ''df_g'' \<mapsto> 1, ''df_s_filtered'' \<mapsto> 2,
                     ''df_g_filtered'' \<mapsto> 3, ''day_avg'' \<mapsto> 4]"
proof -
  from run_Cons_Inr [OF assms] obtain st1 where
    s1: "line_116 yf (loaded s g) = Inr st1" and
    r1: "run [line_117 yf, lines_126_139 fixed corr, line_184] st1 = Inr st"
    by blast
  from new_frame_effect [OF s1 [unfolded line_116_def]] obtain fs where
    fs: "filterByYears s yf = Inr fs" and h1: "heap st1 = [s, g, fs]" and
    e1: "env st1 = [''df_s'' \<mapsto> 0, ''df_g'' \<mapsto> 1, ''df_s_filtered'' \<mapsto> 2]"
    by (auto simp: loaded_def on_var_def get_var_def eval_nat_numeral)
  from run_Cons_Inr [OF r1] obtain st2 where
    s2: "line_117 yf st1 = Inr st2" and
    r2: "run [lines_126_139 fixed corr, line_184] st2 = Inr st"
    by blast
  from new_frame_effect [OF s2 [unfolded line_117_def]] obtain fg where
    fg: "filterByYears g yf = Inr fg" and h2: "heap st2 = [s, g, fs, fg]" and
    e2: "env st2 = [''df_s'' \<mapsto> 0, ''df_g'' \<mapsto> 1, ''df_s_filtered'' \<mapsto> 2,
                    ''df_g_filtered'' \<mapsto> 3]"
    by (auto simp: h1 e1 on_var_def get_var_def eval_nat_numeral)
  from run_Cons_Inr [OF r2] obtain st3 where
    s3: "lines_126_139 fixed corr st2 = Inr st3" and
    r3: "run [line_184] st3 = Inr st"
    by blast
  from lines_126_139_effect [OF s3] have h3: "heap st3 = [s, g, fs, fg]" and
    e3: "env st3 = [''df_s'' \<mapsto> 0, ''df_g'' \<mapsto> 1, ''df_s_filtered'' \<mapsto> 2,
                    ''df_g_filtered'' \<mapsto> 3]"
    by (simp_all add: h2 e2)
  from run_Cons_Inr [OF r3] have s4: "line_184 st3 = Inr st"
    by auto
  from new_frame_effect [OF s4 [unfolded line_184_def]] obtain da where
    da: "day_avg fs = Inr da" and h4: "heap st = [s, g, fs, fg, da]" and
    e4: "env st = [''df_s'' \<mapsto> 0, ''df_g'' \<mapsto> 1, ''df_s_filtered'' \<mapsto> 2,
                   ''df_g_filtered'' \<mapsto> 3, ''day_avg'' \<mapsto> 4]"
    by (auto simp: h3 e3 on_var_def get_var_def eval_nat_numeral)
  from fs fg da h4 e4 show ?thesis
    by blast
qed

lemma run_append:
  "run (xs @ ys) st = (case run xs st of Inl e \<Rightarrow> Inl e | Inr st' \<Rightarrow> run ys st')"
  by (induction xs arbitrary: st) (auto split: sum.splits)


lemma run_from_191:
  assumes "run [line_191, line_192, line_193 repr, line_207, line_234,
                lines_235_236 rc repr q] st0 = Inr st"
    and h0: "heap st0 = [s, g, fs, fg, da]"
    and e0: "env st0 = [''df_s'' \<mapsto> 0, ''df_g'' \<mapsto> 1, ''df_s_filtered'' \<mapsto> 2,
                        ''df_g_filtered'' \<mapsto> 3, ''day_avg'' \<mapsto> 4]"
  shows "get_var st ''df_s'' = Inr s \<and> get_var st ''df_g'' = Inr g \<and>
         get_var st ''df_g_filtered'' = Inr fg \<and>
         get_var st ''df_s_filtered'' = Inr (with_quarter fs) \<and>
         get_var st ''display_df'' =
           displayed_table rc repr q
             (pd_concat (with_quarter fs) fg)"
proof -
  let ?fq = "with_quarter fs"
  from run_Cons_Inr [OF assms(1)] obtain st5 where
    s5: "line_191 st0 = Inr st5" and
    r5: "run [line_192, line_193 repr, line_207, line_234, lines_235_236 rc repr q] st5 = Inr st"
    by blast
  from line_191_effect [OF s5] have h5: "heap st5 = [s, g, ?fq, fg, da]" and
    e5: "env st5 = [''df_s'' \<mapsto> 0, ''df_g'' \<mapsto> 1, ''df_s_filtered'' \<mapsto> 2,
                    ''df_g_filtered'' \<mapsto> 3, ''day_avg'' \<mapsto> 4]"
    by (auto simp: h0 e0)
  from run_Cons_Inr [OF r5] obtain st6 where
    s6: "line_192 st5 = Inr st6" and
    r6: "run [line_193 repr, line_207, line_234, lines_235_236 rc repr q] st6 = Inr st"
    by blast
  from new_frame_effect [OF s6 [unfolded line_192_def]] obtain qs where
    h6: "heap st6 = [s, g, ?fq, fg, da, qs]" and
    e6: "env st6 = [''df_s'' \<mapsto> 0, ''df_g'' \<mapsto> 1, ''df_s_filtered'' \<mapsto> 2,
                    ''df_g_filtered'' \<mapsto> 3, ''day_avg'' \<mapsto> 4, ''q_sum'' \<mapsto> 5]"
    by (auto simp: h5 e5 eval_nat_numeral)
  from run_Cons_Inr [OF r6] obtain st7 where
    s7: "line_193 repr st6 = Inr st7" and
    r7: "run [line_207, line_234, lines_235_236 rc repr q] st7 = Inr st"
    by blast
  from line_193_effect [OF s7] obtain ql where
    h7: "heap st7 = [s, g, ?fq, fg, da, ql]" and
    e7: "env st7 = [''df_s'' \<mapsto> 0, ''df_g'' \<mapsto> 1, ''df_s_filtered'' \<mapsto> 2,
                    ''df_g_filtered'' \<mapsto> 3, ''day_avg'' \<mapsto> 4, ''q_sum'' \<mapsto> 5]"
    by (auto simp: h6 e6)
  from run_Cons_Inr [OF r7] obtain st8 where
    s8: "line_207 st7 = Inr st8" and
    r8: "run [line_234, lines_235_236 rc repr q] st8 = Inr st"
    by blast
  from new_frame_effect [OF s8 [unfolded line_207_def]] obtain cb where
    h8: "heap st8 = [s, g, ?fq, fg, da, ql, cb]" and
    e8: "env st8 = [''df_s'' \<mapsto> 0, ''df_g'' \<mapsto> 1, ''df_s_filtered'' \<mapsto> 2,
                    ''df_g_filtered'' \<mapsto> 3, ''day_avg'' \<mapsto> 4, ''q_sum'' \<mapsto> 5,
                    ''combined'' \<mapsto> 6]"
    by (auto simp: h7 e7 eval_nat_numeral)
  from run_Cons_Inr [OF r8] obtain st9 where
    s9: "line_234 st8 = Inr st9" and
    r9: "run [lines_235_236 rc repr q] st9 = Inr st"
    by blast
  have ov: "on_vars ''df_s_filtered'' ''df_g_filtered'' f st8 = f ?fq fg" for f
    by (simp add: on_vars_def get_var_def h8 e8)
  from new_frame_effect [OF s9 [unfolded line_234_def]] have
    h9: "heap st9 = [s, g, ?fq, fg, da, ql, cb, pd_concat ?fq fg]" and
    e9: "env st9 = [''df_s'' \<mapsto> 0, ''df_g'' \<mapsto> 1, ''df_s_filtered'' \<mapsto> 2,
                    ''df_g_filtered'' \<mapsto> 3, ''day_avg'' \<mapsto> 4, ''q_sum'' \<mapsto> 5,
                    ''combined'' \<mapsto> 6, ''display_df'' \<mapsto> 7]"
    by (auto simp: ov h8 e8 eval_nat_numeral)
  from run_Cons_Inr [OF r9] have s10: "lines_235_236 rc repr q st9 = Inr st"
    by auto
  show ?thesis
  proof (cases "q = []")
    case True
    with s10 have "st = st9"
      by (simp add: lines_235_236_def)
    then show ?thesis
      using True by (simp add: get_var_def h9 e9 displayed_table_def)
  next
    case False
    with s10 have n: "new_frame ''display_df'' (on_var ''display_df'' (search_rows rc repr q)) st9
                       = Inr st"
      by (simp add: lines_235_236_def)
    have od: "on_var ''display_df'' f st9 = f (pd_concat ?fq fg)" for f
      by (simp add: on_var_def get_var_def h9 e9)
    from new_frame_effect [OF n] obtain d where
      d: "search_rows rc repr q (pd_concat ?fq fg) = Inr d" and
      h10: "heap st = [s, g, ?fq, fg, da, ql, cb, pd_concat ?fq fg, d]" and
      e10: "env st = [''df_s'' \<mapsto> 0, ''df_g'' \<mapsto> 1, ''df_s_filtered'' \<mapsto> 2,
                    ''df_g_filtered'' \<mapsto> 3, ''day_avg'' \<mapsto> 4, ''q_sum'' \<mapsto> 5,
                    ''combined'' \<mapsto> 6, ''display_df'' \<mapsto> 7, ''display_df'' \<mapsto> 8]"
      by (auto simp: od h9 e9 eval_nat_numeral)
    show ?thesis
      using False by (simp add: get_var_def h10 e10 displayed_table_def d)
  qed
qed


lemma filter_ex_brand: "filterByYears ex_brand [2024, 2025] = Inr ex_brand"
proof -
  have "filter (\<lambda>(i, r). cell_isin (r ''year'') [2024, 2025]) (rows ex_brand) = rows ex_brand"
    by (simp add: ex_brand_def rows_add_calendar_columns cell_isin_int_field)
  then show ?thesis
    by (simp add: filterByYears_rows columns_ex_brand)
qed

lemma filter_ex_card: "filterByYears ex_card [2024, 2025] = Inr ex_card"
proof -
  have "filter (\<lambda>(i, r). cell_isin (r ''year'') [2024, 2025]) (rows ex_card) = rows ex_card"
    by (simp add: ex_card_def rows_add_calendar_columns cell_isin_int_field)
  then show ?thesis
    by (simp add: filterByYears_rows columns_ex_card)
qed

lemma ratio_ex_brand: "map (\<lambda>(i, r). (i, r ''ratio'')) (rows ex_brand) = [(0, Some (CInt 50))]"
  by (simp add: ex_brand_def rows_add_calendar_columns)

lemma ratio_ex_card: "map (\<lambda>(i, r). (i, r ''ratio'')) (rows ex_card) = [(0, Some (CInt 20))]"
  by (simp add: ex_card_def rows_add_calendar_columns)

lemma format_whole_ex:
  "format_whole 2 50 = ''50.00''" "format_whole 2 20 = ''20.00''"
  "format_whole (Suc 0) 50 = ''50.0''"
proof -
  have r: "replicate 2 c = [c, c]" for c :: char
    by (simp add: numeral_2_eq_2)
  show "format_whole 2 50 = ''50.00''" "format_whole 2 20 = ''20.00''"
    "format_whole (Suc 0) 50 = ''50.0''"
    by (simp_all add: format_whole_def str_int_def digit_char_def r)
qed

lemma mean_ex_brand: "ratio_mean ex_brand = Inr (Fin 50)"
  by (simp add: ratio_mean_def reduce_column_def getitem_def columns_ex_brand ratio_ex_brand
      series_mean_def)

lemma mean_ex_card: "ratio_mean ex_card = Inr (Fin 20)"
  by (simp add: ratio_mean_def reduce_column_def getitem_def columns_ex_card ratio_ex_card
      series_mean_def)

lemma max_ex_brand: "ratio_max ex_brand = Inr (Fin 50)"
  by (simp add: ratio_max_def reduce_column_def getitem_def columns_ex_brand ratio_ex_brand
      series_max_def)

lemma corr_ex_brand_card: "headline_corr corrcoef_exact ex_brand ex_card = Inr NaN"
  by (simp add: headline_corr_def getitem_def columns_ex_brand columns_ex_card ratio_ex_brand
      ratio_ex_card series_corr_def align_inner_def pearson_short)

lemma metrics_ex:
  "collect [metric_text format_whole 2 (ratio_mean ex_brand),
            metric_text format_whole 2 (ratio_mean ex_card),
            metric_text format_whole 1 (ratio_max ex_brand),
            metric_text format_whole 3 (headline_corr corrcoef_exact ex_brand ex_card)] =
     Inr [''50.00'', ''20.00'', ''50.0'', ''nan'']"
  unfolding mean_ex_brand mean_ex_card max_ex_brand corr_ex_brand_card
  by (simp add: metric_text_def format_whole_ex)

lemma new_frame_Inr:
  "expr st = Inr df \<Longrightarrow>
   new_frame name expr st =
     Inr (st\<lparr>heap := heap st @ [df], env := (env st)(name \<mapsto> length (heap st))\<rparr>)"
  by (simp add: new_frame_def)

lemma run_ex_to_184:
  "\<exists>da. run [line_116 [2024, 2025], line_117 [2024, 2025], lines_126_139 format_whole corrcoef_exact, line_184]
          (loaded ex_brand ex_card) =
        Inr \<lparr>heap = [ex_brand, ex_card, ex_brand, ex_card, da],
             env = [''df_s'' \<mapsto> 0, ''df_g'' \<mapsto> 1, ''df_s_filtered'' \<mapsto> 2,
                    ''df_g_filtered'' \<mapsto> 3, ''day_avg'' \<mapsto> 4],
             ui = [''50.00'', ''20.00'', ''50.0'', ''nan'']\<rparr>"
proof -
  let ?e2 = "[''df_s'' \<mapsto> 0::nat, ''df_g'' \<mapsto> 1, ''df_s_filtered'' \<mapsto> 2,
              ''df_g_filtered'' \<mapsto> 3]"
  let ?st1 = "\<lparr>heap = [ex_brand, ex_card, ex_brand],
               env = [''df_s'' \<mapsto> 0::nat, ''df_g'' \<mapsto> 1, ''df_s_filtered'' \<mapsto> 2], ui = []\<rparr>"
  let ?st2 = "\<lparr>heap = [ex_brand, ex_card, ex_brand, ex_card], env = ?e2, ui = []\<rparr>"
  let ?st3 = "\<lparr>heap = [ex_brand, ex_card, ex_brand, ex_card], env = ?e2,
               ui = [''50.00'', ''20.00'', ''50.0'', ''nan'']\<rparr>"
  obtain da where da: "day_avg ex_brand = Inr da"
    using day_avg_Inr [of ex_brand "[Fin 50]"]
    by (simp add: columns_ex_brand ratio_ex_brand)
  have s1: "line_116 [2024, 2025] (loaded ex_brand ex_card) = Inr ?st1"
    unfolding line_116_def
    by (subst new_frame_Inr [of _ _ ex_brand])
      (simp_all add: on_var_def get_var_def loaded_def filter_ex_brand eval_nat_numeral)
  have s2: "line_117 [2024, 2025] ?st1 = Inr ?st2"
    unfolding line_117_def
    by (subst new_frame_Inr [of _ _ ex_card])
      (simp_all add: on_var_def get_var_def filter_ex_card eval_nat_numeral)
  have g1: "get_var ?st2 ''df_s_filtered'' = Inr ex_brand"
    by (simp add: get_var_def)
  have g2: "get_var ?st2 ''df_g_filtered'' = Inr ex_card"
    by (simp add: get_var_def)
  have s3: "lines_126_139 format_whole corrcoef_exact ?st2 = Inr ?st3"
    unfolding lines_126_139_def g1 g2 sum.case metrics_ex by simp
  have s4: "line_184 ?st3 =
              Inr \<lparr>heap = [ex_brand, ex_card, ex_brand, ex_card, da],
                   env = ?e2(''day_avg'' \<mapsto> 4),
                   ui = [''50.00'', ''20.00'', ''50.0'', ''nan'']\<rparr>"
    unfolding line_184_def
    by (subst new_frame_Inr [of _ _ da]) (simp_all add: on_var_def get_var_def da eval_nat_numeral)
  show ?thesis
    by (rule exI [of _ da]) (simp only: run.simps s1 s2 s3 s4 sum.case)
qed


lemma update_frame_Inr:
  "env st name = Some a \<Longrightarrow> a < length (heap st) \<Longrightarrow> change (heap st ! a) = Inr df \<Longrightarrow>
   update_frame name change st = Inr (st\<lparr>heap := (heap st)[a := df]\<rparr>)"
  by (simp add: update_frame_def)

lemma ratio_after_assign:
  "name \<noteq> ''ratio'' \<Longrightarrow>
   map (\<lambda>(i, r). (i, r ''ratio'')) (rows (assign name f df)) =
   map (\<lambda>(i, r). (i, r ''ratio'')) (rows df)"
  by (simp add: rows_assign case_prod_unfold o_def)

text \<open>
  From the state after line 184 the rest of the script runs to its end whenever the
  filtered tables have their \<open>period\<close> and \<open>ratio\<close> columns, the ratio cells of the first
  are numbers and the query, if there is one, compiles.
\<close>

lemma run_from_191_succeeds:
  assumes h0: "heap st0 = [s, g, fs, fg, da]"
    and e0: "env st0 = [''df_s'' \<mapsto> 0, ''df_g'' \<mapsto> 1, ''df_s_filtered'' \<mapsto> 2,
                        ''df_g_filtered'' \<mapsto> 3, ''day_avg'' \<mapsto> 4]"
    and cs: "''period'' \<in> set (columns fs)" "''ratio'' \<in> set (columns fs)"
    and nm: "numeric (map (\<lambda>(i, r). (i, r ''ratio'')) (rows fs)) = Inr vs"
    and cg: "''period'' \<in> set (columns fg)" "''ratio'' \<in> set (columns fg)"
    and qq: "q = [] \<or> rc q \<noteq> None"
  shows "\<exists>st. run [line_191, line_192, line_193 repr, line_207, line_234,
                    lines_235_236 rc repr q] st0 = Inr st"
proof -
  let ?fq = "with_quarter fs"
  let ?e = "[''df_s'' \<mapsto> 0::nat, ''df_g'' \<mapsto> 1, ''df_s_filtered'' \<mapsto> 2,
             ''df_g_filtered'' \<mapsto> 3, ''day_avg'' \<mapsto> 4]"
  let ?st5 = "st0\<lparr>heap := [s, g, ?fq, fg, da]\<rparr>"
  have s5: "line_191 st0 = Inr ?st5"
    unfolding line_191_def
    by (subst update_frame_Inr [of _ _ 2 _ ?fq]) (simp_all add: h0 e0 add_quarter_def cs)
  have cq: "''quarter'' \<in> set (columns ?fq)" "''ratio'' \<in> set (columns ?fq)"
    "''period'' \<in> set (columns ?fq)"
    using cs by (simp_all add: with_quarter_def columns_assign)
  have "numeric (map (\<lambda>(i, r). (i, r ''ratio'')) (rows ?fq)) = Inr vs"
    using nm by (simp add: with_quarter_def ratio_after_assign)
  then obtain qs where qs: "quarter_sum ?fq = Inr qs" and cqs: "columns qs = [''quarter'', ''ratio'']"
    using cq by (simp add: quarter_sum_def getitem_def reset_index_def)
  let ?st6 = "?st5\<lparr>heap := [s, g, ?fq, fg, da, qs], env := ?e(''q_sum'' \<mapsto> 5)\<rparr>"
  have s6: "line_192 ?st5 = Inr ?st6"
    unfolding line_192_def
    by (subst new_frame_Inr [of _ _ qs])
      (simp_all add: on_var_def get_var_def e0 qs eval_nat_numeral)
  obtain ql where ql: "label_quarters repr qs = Inr ql"
    by (simp add: label_quarters_def cqs)
  let ?st7 = "?st6\<lparr>heap := [s, g, ?fq, fg, da, ql]\<rparr>"
  have s7: "line_193 repr ?st6 = Inr ?st7"
    unfolding line_193_def
    by (subst update_frame_Inr [of _ _ 5 _ ql]) (simp_all add: ql)
  obtain cb where cb: "merge_on_period ?fq fg = Inr cb"
    using cq cg by (simp add: merge_on_period_def)
  let ?st8 = "?st7\<lparr>heap := [s, g, ?fq, fg, da, ql, cb],
                    env := ?e(''q_sum'' \<mapsto> 5, ''combined'' \<mapsto> 6)\<rparr>"
  have s8: "line_207 ?st7 = Inr ?st8"
    unfolding line_207_def
    by (subst new_frame_Inr [of _ _ cb])
      (simp_all add: on_vars_def get_var_def e0 cb eval_nat_numeral)
  let ?st9 = "?st8\<lparr>heap := [s, g, ?fq, fg, da, ql, cb, pd_concat ?fq fg],
                    env := ?e(''q_sum'' \<mapsto> 5, ''combined'' \<mapsto> 6, ''display_df'' \<mapsto> 7)\<rparr>"
  have s9: "line_234 ?st8 = Inr ?st9"
    unfolding line_234_def
    by (subst new_frame_Inr [of _ _ "pd_concat ?fq fg"])
      (simp_all add: on_vars_def get_var_def e0 eval_nat_numeral)
  have "\<exists>st. lines_235_236 rc repr q ?st9 = Inr st"
  proof (cases "q = []")
    case True
    then show ?thesis by (simp add: lines_235_236_def)
  next
    case False
    with qq obtain found where "rc q = Some found"
      by auto
    then obtain d where "search_rows rc repr q (pd_concat ?fq fg) = Inr d"
      by (simp add: search_rows_def)
    then show ?thesis
      using False by (simp add: lines_235_236_def new_frame_def on_var_def get_var_def)
  qed
  then obtain st where s10: "lines_235_236 rc repr q ?st9 = Inr st"
    by blast
  show ?thesis
    by (rule exI [of _ st]) (simp only: run.simps s5 s6 s7 s8 s9 s10 sum.case)
qed


lemma run_script:
  assumes "run (script fixed corr repr rc yf q) (loaded s g) = Inr st"
  shows "\<exists>fs fg. filterByYears s yf = Inr fs \<and> filterByYears g yf = Inr fg \<and>
           get_var st ''df_s'' = Inr s \<and> get_var st ''df_g'' = Inr g \<and>
           get_var st ''df_g_filtered'' = Inr fg \<and>
           get_var st ''df_s_filtered'' =
             Inr (with_quarter fs) \<and>
           get_var st ''display_df'' =
             displayed_table rc repr q
               (pd_concat (with_quarter fs) fg)"
proof -
  have sc: "script fixed corr repr rc yf q =
              [line_116 yf, line_117 yf, lines_126_139 fixed corr, line_184] @
              [line_191, line_192, line_193 repr, line_207, line_234, lines_235_236 rc repr q]"
    by (simp add: script_def)
  from assms obtain st4 where
    a: "run [line_116 yf, line_117 yf, lines_126_139 fixed corr, line_184] (loaded s g) = Inr st4" and
    b: "run [line_191, line_192, line_193 repr, line_207, line_234, lines_235_236 rc repr q] st4
          = Inr st"
    unfolding sc run_append by (auto split: sum.splits)
  from run_to_184 [OF a] obtain fs fg da where
    f: "filterByYears s yf = Inr fs" "filterByYears g yf = Inr fg" and
    h: "heap st4 = [s, g, fs, fg, da]" and
    e: "env st4 = [''df_s'' \<mapsto> 0, ''df_g'' \<mapsto> 1, ''df_s_filtered'' \<mapsto> 2,
                   ''df_g_filtered'' \<mapsto> 3, ''day_avg'' \<mapsto> 4]"
    by blast
  from run_from_191 [OF b h e] f show ?thesis
    by blast
qed

text \<open>
  Claim C5, as the code has it. In every run of the script the two loaded tables are
  at the end what they were after loading, and the filtered second table is the
  result of its filter. The year filters, the metric cards, the weekday and quarter
  aggregations, the merge, the concatenation and the search leave every existing
  table as it was (they only add objects). Two statements write into an existing
  table: line 191 adds the column \<open>quarter\<close> to the filtered first table, and line 193
  replaces the quarter column of \<open>q_sum\<close>.
\<close>

theorem tables_changed_only_by_item_assignment:
  assumes "run (script fixed corr repr rc yf q) (loaded s g) = Inr st"
  shows "get_var st ''df_s'' = Inr s \<and> get_var st ''df_g'' = Inr g \<and>
         (\<exists>fs fg. filterByYears s yf = Inr fs \<and> filterByYears g yf = Inr fg \<and>
            get_var st ''df_g_filtered'' = Inr fg \<and>
            get_var st ''df_s_filtered'' =
              Inr (with_quarter fs)) \<and>
         (\<forall>stmt \<in> set [line_116 yf, line_117 yf, lines_126_139 fixed corr, line_184, line_192,
                          line_207, line_234, lines_235_236 rc repr q].
            \<forall>st0 st1. stmt st0 = Inr st1 \<longrightarrow> prefix (heap st0) (heap st1)) \<and>
         (\<forall>st0 st1. line_191 st0 = Inr st1 \<longrightarrow>
            (\<exists>a. env st0 ''df_s_filtered'' = Some a \<and> a < length (heap st0) \<and>
                 heap st1 = (heap st0)[a := with_quarter (heap st0 ! a)])) \<and>
         (\<forall>st0 st1. line_193 repr st0 = Inr st1 \<longrightarrow>
            (\<exists>a. env st0 ''q_sum'' = Some a \<and> a < length (heap st0) \<and>
                 heap st1 = (heap st0)[a := assign ''quarter''
                    (\<lambda>r. CStr (str_cell repr (r ''quarter'') @ bungi)) (heap st0 ! a)]))"
proof -
  from run_script [OF assms] have
    "get_var st ''df_s'' = Inr s \<and> get_var st ''df_g'' = Inr g \<and>
         (\<exists>fs fg. filterByYears s yf = Inr fs \<and> filterByYears g yf = Inr fg \<and>
            get_var st ''df_g_filtered'' = Inr fg \<and>
            get_var st ''df_s_filtered'' =
              Inr (with_quarter fs))"
    by blast
  moreover have "\<forall>stmt \<in> set [line_116 yf, line_117 yf, lines_126_139 fixed corr, line_184, line_192,
                          line_207, line_234, lines_235_236 rc repr q].
            \<forall>st0 st1. stmt st0 = Inr st1 \<longrightarrow> prefix (heap st0) (heap st1)"
    using builders_prefix [of _ yf fixed corr rc repr q] by blast
  moreover have "\<forall>st0 st1. line_191 st0 = Inr st1 \<longrightarrow>
            (\<exists>a. env st0 ''df_s_filtered'' = Some a \<and> a < length (heap st0) \<and>
                 heap st1 = (heap st0)[a := with_quarter (heap st0 ! a)])"
    using line_191_effect by blast
  moreover have "\<forall>st0 st1. line_193 repr st0 = Inr st1 \<longrightarrow>
            (\<exists>a. env st0 ''q_sum'' = Some a \<and> a < length (heap st0) \<and>
                 heap st1 = (heap st0)[a := assign ''quarter''
                    (\<lambda>r. CStr (str_cell repr (r ''quarter'') @ bungi)) (heap st0 ! a)])"
    using line_193_effect by blast
  ultimately show ?thesis
    by (intro conjI) blast+
qed

lemma run_ex_script:
  "\<exists>st. run (script format_whole corrcoef_exact repr_whole re_compile_dots [2024, 2025] [])
           (loaded ex_brand ex_card) = Inr st"
proof -
  from run_ex_to_184 obtain da where
    a: "run [line_116 [2024, 2025], line_117 [2024, 2025], lines_126_139 format_whole corrcoef_exact, line_184]
          (loaded ex_brand ex_card) =
        Inr \<lparr>heap = [ex_brand, ex_card, ex_brand, ex_card, da],
             env = [''df_s'' \<mapsto> 0, ''df_g'' \<mapsto> 1, ''df_s_filtered'' \<mapsto> 2,
                    ''df_g_filtered'' \<mapsto> 3, ''day_avg'' \<mapsto> 4],
             ui = [''50.00'', ''20.00'', ''50.0'', ''nan'']\<rparr>"
    by blast
  let ?st4 = "\<lparr>heap = [ex_brand, ex_card, ex_brand, ex_card, da],
             env = [''df_s'' \<mapsto> 0::nat, ''df_g'' \<mapsto> 1, ''df_s_filtered'' \<mapsto> 2,
                    ''df_g_filtered'' \<mapsto> 3, ''day_avg'' \<mapsto> 4],
             ui = [''50.00'', ''20.00'', ''50.0'', ''nan'']\<rparr>"
  have n: "numeric (map (\<lambda>(i, r). (i, r ''ratio'')) (rows ex_brand)) = Inr [Fin 50]"
    by (simp add: ratio_ex_brand)
  have h: "heap ?st4 = [ex_brand, ex_card, ex_brand, ex_card, da]"
    by simp
  have e: "env ?st4 = [''df_s'' \<mapsto> 0, ''df_g'' \<mapsto> 1, ''df_s_filtered'' \<mapsto> 2,
                       ''df_g_filtered'' \<mapsto> 3, ''day_avg'' \<mapsto> 4]"
    by simp
  have c: "''period'' \<in> set (columns ex_brand)" "''ratio'' \<in> set (columns ex_brand)"
    "''period'' \<in> set (columns ex_card)" "''ratio'' \<in> set (columns ex_card)"
    by (simp_all add: columns_ex_brand columns_ex_card)
  have q: "([]::string) = [] \<or> re_compile_dots [] \<noteq> None"
    by simp
  have "\<exists>st. run [line_191, line_192, line_193 repr_whole, line_207, line_234,
                  lines_235_236 re_compile_dots repr_whole []] ?st4 = Inr st"
    by (rule run_from_191_succeeds
        [where rc = re_compile_dots and q = "[]" and repr = repr_whole,
          OF h e c(1) c(2) n c(3) c(4) q])
  then obtain st where
    b: "run [line_191, line_192, line_193 repr_whole, line_207, line_234,
             lines_235_236 re_compile_dots repr_whole []] ?st4 = Inr st"
    by blast
  have sc: "script format_whole corrcoef_exact repr_whole re_compile_dots [2024, 2025] [] =
              [line_116 [2024, 2025], line_117 [2024, 2025], lines_126_139 format_whole corrcoef_exact, line_184] @
              [line_191, line_192, line_193 repr_whole, line_207, line_234,
               lines_235_236 re_compile_dots repr_whole []]"
    by (simp add: script_def)
  show ?thesis
    unfolding sc run_append a sum.case using b by (rule exI)
qed

theorem tables_changed_only_by_item_assignment_witness:
  "\<exists>st. run (script format_whole corrcoef_exact repr_whole re_compile_dots [2024, 2025] [])
           (loaded ex_brand ex_card) = Inr st \<and>
        get_var st ''df_s'' = Inr ex_brand \<and> get_var st ''df_g'' = Inr ex_card \<and>
        get_var st ''df_g_filtered'' = Inr ex_card \<and>
        get_var st ''df_s_filtered'' =
          Inr (with_quarter ex_brand)"
proof -
  from run_ex_script obtain st where
    r: "run (script format_whole corrcoef_exact repr_whole re_compile_dots [2024, 2025] [])
           (loaded ex_brand ex_card) = Inr st"
    by blast
  from tables_changed_only_by_item_assignment [OF r] obtain fs fg where
    "get_var st ''df_s'' = Inr ex_brand" "get_var st ''df_g'' = Inr ex_card"
    "filterByYears ex_brand [2024, 2025] = Inr fs" "filterByYears ex_card [2024, 2025] = Inr fg"
    "get_var st ''df_g_filtered'' = Inr fg"
    "get_var st ''df_s_filtered'' = Inr (with_quarter fs)"
    by blast
  then have "get_var st ''df_s'' = Inr ex_brand \<and> get_var st ''df_g'' = Inr ex_card \<and>
        get_var st ''df_g_filtered'' = Inr ex_card \<and>
        get_var st ''df_s_filtered'' =
          Inr (with_quarter ex_brand)"
    by (simp add: filter_ex_brand filter_ex_card)
  with r show ?thesis
    by blast
qed

text \<open>
  Claim C5 as stated, at an input where it fails. After lines 116 to 184 the object of
  \<open>df_s_filtered\<close> (address 2) has the six columns of the loaded table; after line 191
  the same object has a seventh, \<open>quarter\<close>.
\<close>

theorem filtered_table_mutated_counterexample:
  "map_sum id (\<lambda>st. (env st ''df_s_filtered'', columns (heap st ! 2)))
     (run [line_116 [2024, 2025], line_117 [2024, 2025], lines_126_139 format_whole corrcoef_exact, line_184]
        (loaded ex_brand ex_card)) =
     Inr (Some 2, [''period'', ''ratio'', ''month'', ''year'', ''dayofweek'', ''is_weekend'']) \<and>
   map_sum id (\<lambda>st. (env st ''df_s_filtered'', columns (heap st ! 2)))
     (run [line_116 [2024, 2025], line_117 [2024, 2025], lines_126_139 format_whole corrcoef_exact, line_184,
           line_191]
        (loaded ex_brand ex_card)) =
     Inr (Some 2, [''period'', ''ratio'', ''month'', ''year'', ''dayofweek'', ''is_weekend'',
                   ''quarter''])"
proof -
  from run_ex_to_184 obtain da where
    a: "run [line_116 [2024, 2025], line_117 [2024, 2025], lines_126_139 format_whole corrcoef_exact, line_184]
          (loaded ex_brand ex_card) =
        Inr \<lparr>heap = [ex_brand, ex_card, ex_brand, ex_card, da],
             env = [''df_s'' \<mapsto> 0, ''df_g'' \<mapsto> 1, ''df_s_filtered'' \<mapsto> 2,
                    ''df_g_filtered'' \<mapsto> 3, ''day_avg'' \<mapsto> 4],
             ui = [''50.00'', ''20.00'', ''50.0'', ''nan'']\<rparr>"
    by blast
  let ?st4 = "\<lparr>heap = [ex_brand, ex_card, ex_brand, ex_card, da],
             env = [''df_s'' \<mapsto> 0::nat, ''df_g'' \<mapsto> 1, ''df_s_filtered'' \<mapsto> 2,
                    ''df_g_filtered'' \<mapsto> 3, ''day_avg'' \<mapsto> 4],
             ui = [''50.00'', ''20.00'', ''50.0'', ''nan'']\<rparr>"
  let ?fq = "with_quarter ex_brand"
  have l: "line_191 ?st4 = Inr (?st4\<lparr>heap := [ex_brand, ex_card, ?fq, ex_card, da]\<rparr>)"
    unfolding line_191_def
    by (subst update_frame_Inr [of _ _ 2 _ ?fq]) (simp_all add: add_quarter_def columns_ex_brand)
  have ap: "[line_116 [2024, 2025], line_117 [2024, 2025], lines_126_139 format_whole corrcoef_exact, line_184,
             line_191] =
            [line_116 [2024, 2025], line_117 [2024, 2025], lines_126_139 format_whole corrcoef_exact, line_184] @
            [line_191]"
    by simp
  have b: "run [line_116 [2024, 2025], line_117 [2024, 2025], lines_126_139 format_whole corrcoef_exact,
                line_184, line_191] (loaded ex_brand ex_card) =
           Inr (?st4\<lparr>heap := [ex_brand, ex_card, ?fq, ex_card, da]\<rparr>)"
    unfolding ap run_append a sum.case by (simp only: run.simps l sum.case)
  show ?thesis
    unfolding a b by (simp add: columns_ex_brand with_quarter_def columns_assign)
qed

section \<open>Properties of export and reload\<close>

lemma map_of_zip_map:
  "c \<in> set cols \<Longrightarrow> map_of (zip cols (map f cols)) c = Some (f c)"
  by (induction cols) auto

lemma rows_read_to_csv:
  "rows (read_csv_doc read_field (to_csv repr df)) =
     enumerate 0 (map (\<lambda>(i, r). map_of (zip (columns df)
                    (map (\<lambda>c. read_field c (csv_text repr (r c))) (columns df)))) (rows df))"
proof -
  have "map (\<lambda>(c, t). read_field c t) (zip cols (map g cols)) = map (\<lambda>c. read_field c (g c)) cols"
    for cols :: "string list" and g
    by (induction cols) auto
  then show ?thesis
    by (simp add: read_csv_doc_def to_csv_def case_prod_unfold o_def)
qed

lemma columns_read_to_csv: "columns (read_csv_doc read_field (to_csv repr df)) = columns df"
  by (simp add: read_csv_doc_def to_csv_def)

lemma to_datetime_rows_all:
  assumes "\<forall>(i, r) \<in> set rs. to_dt (case r ''period'' of Some c \<Rightarrow> c | None \<Rightarrow> CFloat NaN) = Some (t r)"
  shows "to_datetime_rows to_dt rs = Inr (map (\<lambda>(i, r). (i, r(''period'' \<mapsto> t r))) rs)"
  using assms by (induction rs) auto


lemma derive_columns_shape:
  assumes "derive_columns to_dt raw = Inr s"
  shows "\<exists>sp. s = add_calendar_columns sp \<and> ''period'' \<in> set (columns sp)"
  using assms
  by (auto simp: derive_columns_def parse_period_def split: sum.splits if_splits)

lemma columns_add_calendar_columns:
  "set (columns (add_calendar_columns df)) =
     set (columns df) \<union> {''month'', ''year'', ''dayofweek'', ''is_weekend''}"
  by (auto simp: add_calendar_columns_def columns_assign)

lemma columns_add_calendar_columns_idem:
  assumes "{''month'', ''year'', ''dayofweek'', ''is_weekend''} \<subseteq> set (columns df)"
  shows "columns (add_calendar_columns df) = columns df"
  using assms by (simp add: add_calendar_columns_def columns_assign)

lemma period_add_calendar_columns:
  assumes "(i, r) \<in> set (rows (add_calendar_columns df))"
  shows "\<exists>r0. (i, r0) \<in> set (rows df) \<and> r ''period'' = r0 ''period''"
  using assms by (auto simp: rows_add_calendar_columns)

lemma filtered_rows_dated:
  assumes "filterByYears (add_calendar_columns sp) ys = Inr fs"
  shows "columns fs = columns (add_calendar_columns sp) \<and>
         (\<forall>(i, r) \<in> set (rows fs). dated_in ys r)"
proof -
  from assms filterByYears_rows [OF year_in_columns_add_calendar_columns, of sp ys]
  have fs: "fs = \<lparr>columns = columns (add_calendar_columns sp),
                  rows = filter (\<lambda>(i, r). cell_isin (r ''year'') ys)
                           (rows (add_calendar_columns sp))\<rparr>"
    by simp
  have "dated_in ys r" if "(i, r) \<in> set (rows fs)" for i r
  proof -
    from that fs have m: "(i, r) \<in> set (rows (add_calendar_columns sp))"
      and c: "cell_isin (r ''year'') ys"
      by auto
    from derived_year_isin [OF m, of ys] c show ?thesis
      by (simp add: dated_in_def)
  qed
  with fs show ?thesis
    by auto
qed

text \<open>
  A year-filtered table of the loader has no row without a date, so the quarter
  column that line 191 writes into it holds integers.
\<close>

lemma filtered_holds_no_nat:
  assumes "filterByYears (add_calendar_columns sp) ys = Inr fs"
  shows "\<not> holds_nat fs"
proof -
  from filtered_rows_dated [OF assms] have "\<forall>(i, r) \<in> set (rows fs). dated_in ys r"
    by simp
  then have "\<forall>(i, r) \<in> set (rows fs). \<exists>d. r ''period'' = Some (CDate d)"
    by (auto simp: dated_in_def)
  then show ?thesis
    by (rule holds_nat_dated)
qed

lemma quarter_of_filtered:
  assumes "filterByYears (add_calendar_columns sp) ys = Inr fs"
    and "(i, r) \<in> set (rows (with_quarter fs))"
  shows "\<exists>d. r ''period'' = Some (CDate d) \<and> r ''quarter'' = Some (CInt (quarter_of d))"
proof -
  from assms(2) obtain r0 where r0: "(i, r0) \<in> set (rows fs)"
    and r: "r = r0(''quarter'' \<mapsto> dt_quarter (holds_nat fs) (r0 ''period''))"
    by (auto simp: with_quarter_def rows_assign)
  from filtered_rows_dated [OF assms(1)] r0 obtain d where d: "r0 ''period'' = Some (CDate d)"
    by (auto simp: dated_in_def)
  from filtered_holds_no_nat [OF assms(1)] d show ?thesis
    by (simp add: r int_field_def)
qed

lemma displayed_table_shape:
  assumes "displayed_table rc repr q df = Inr disp"
  shows "columns disp = columns df \<and> set (rows disp) \<subseteq> set (rows df)"
proof (cases "q = []")
  case True
  with assms show ?thesis by (simp add: displayed_table_def)
next
  case False
  with assms obtain keep where "disp = boolean_index df keep"
    by (auto simp: displayed_table_def search_rows_def split: option.splits)
  then show ?thesis
    by (auto simp: boolean_index_def dest: set_zip_leftD)
qed

lemma concat_rows_dated:
  assumes "''period'' \<in> set (columns a)" and "''period'' \<in> set (columns b)"
    and "\<forall>(i, r) \<in> set (rows a). dated_in ys r" and "\<forall>(i, r) \<in> set (rows b). dated_in ys r"
  shows "\<forall>(i, r) \<in> set (rows (pd_concat a b)). dated_in ys r"
  using assms
  by (auto simp: pd_concat_def unify_dtypes_def widen_row_def upcast_def dated_in_def)


lemma filter_all: "\<forall>x \<in> set xs. P x \<Longrightarrow> filter P xs = xs"
  by (induction xs) auto

lemma reload_exported:
  assumes cols: "{''period'', ''month'', ''year'', ''dayofweek'', ''is_weekend''} \<subseteq> set (columns df)"
    and dated: "\<forall>(i, r) \<in> set (rows df). dated_in ys r"
    and reads: "\<forall>(i, r) \<in> set (rows df). \<forall>d. r ''period'' = Some (CDate d) \<longrightarrow>
                 to_dt (read_field ''period'' (str_date d)) = Some (CDate d)"
  shows "\<exists>out. reload to_dt read_field ys (to_csv repr df) = Inr out \<and>
           columns out = columns df \<and> length (rows out) = length (rows df)"
proof -
  let ?raw = "read_csv_doc read_field (to_csv repr df)"
  let ?R = "\<lambda>r. map_of (zip (columns df)
                    (map (\<lambda>c. read_field c (csv_text repr (r c))) (columns df)))"
  let ?t = "\<lambda>r'. case to_dt (case r' ''period'' of Some c \<Rightarrow> c | None \<Rightarrow> CFloat NaN) of
                   Some t \<Rightarrow> t | None \<Rightarrow> CNaT"
  have p: "''period'' \<in> set (columns df)"
    using cols by simp
  have raw: "rows ?raw = enumerate 0 (map (\<lambda>(i, r). ?R r) (rows df))"
    by (rule rows_read_to_csv)
  have rawcols: "columns ?raw = columns df"
    by (rule columns_read_to_csv)
  have each: "\<exists>d. d_year d \<in> set ys \<and>
                to_dt (case r' ''period'' of Some c \<Rightarrow> c | None \<Rightarrow> CFloat NaN) = Some (CDate d)"
    if "(j, r') \<in> set (rows ?raw)" for j r'
  proof -
    from that have "r' \<in> set (map (\<lambda>(i, r). ?R r) (rows df))"
      unfolding raw by (auto simp: in_set_enumerate_eq)
    then obtain i r where m: "(i, r) \<in> set (rows df)" and r': "r' = ?R r"
      by auto
    from dated m obtain d where d: "r ''period'' = Some (CDate d)" "d_year d \<in> set ys"
      by (auto simp: dated_in_def)
    from reads m d(1) have b: "to_dt (read_field ''period'' (str_date d)) = Some (CDate d)"
      by blast
    have "r' ''period'' = Some (read_field ''period'' (csv_text repr (r ''period'')))"
      unfolding r' by (rule map_of_zip_map [OF p])
    then have "r' ''period'' = Some (read_field ''period'' (str_date d))"
      by (simp add: d(1))
    with b d(2) show ?thesis
      by auto
  qed
  have "\<forall>(j, r') \<in> set (rows ?raw).
          to_dt (case r' ''period'' of Some c \<Rightarrow> c | None \<Rightarrow> CFloat NaN) = Some (?t r')"
    using each by fastforce
  then have parsed: "to_datetime_rows to_dt (rows ?raw) =
                       Inr (map (\<lambda>(j, r'). (j, r'(''period'' \<mapsto> ?t r'))) (rows ?raw))"
    by (rule to_datetime_rows_all)
  let ?pr = "?raw\<lparr>rows := map (\<lambda>(j, r'). (j, r'(''period'' \<mapsto> ?t r'))) (rows ?raw)\<rparr>"
  have pp: "parse_period to_dt ?raw = Inr ?pr"
    using p by (simp add: parse_period_def rawcols parsed)
  have dc: "derive_columns to_dt ?raw = Inr (add_calendar_columns ?pr)"
    by (simp add: derive_columns_def pp)
  have prcols: "columns ?pr = columns df"
    by (simp add: rawcols)
  have accols: "columns (add_calendar_columns ?pr) = columns df"
    using cols columns_add_calendar_columns_idem [of ?pr] by (simp add: prcols)
  have prdated: "dated_in ys rp" if "(j, rp) \<in> set (rows ?pr)" for j rp
  proof -
    from that obtain r' where m: "(j, r') \<in> set (rows ?raw)" and
      rp: "rp = r'(''period'' \<mapsto> ?t r')"
      by auto
    from each [OF m] obtain d where "d_year d \<in> set ys"
      "to_dt (case r' ''period'' of Some c \<Rightarrow> c | None \<Rightarrow> CFloat NaN) = Some (CDate d)"
      by blast
    then show ?thesis
      by (simp add: rp dated_in_def)
  qed
  have keep: "\<forall>x \<in> set (rows (add_calendar_columns ?pr)).
                (\<lambda>(i, r). cell_isin (r ''year'') ys) x"
  proof
    fix x
    assume x: "x \<in> set (rows (add_calendar_columns ?pr))"
    obtain i r where xr: "x = (i, r)"
      by (cases x)
    from x xr period_add_calendar_columns [of i r ?pr] obtain r0 where
      "(i, r0) \<in> set (rows ?pr)" "r ''period'' = r0 ''period''"
      by blast
    with prdated [of i r0] have "\<exists>d. r ''period'' = Some (CDate d) \<and> d_year d \<in> set ys"
      by (simp add: dated_in_def)
    with derived_year_isin [of i r ?pr ys] x xr show "(\<lambda>(i, r). cell_isin (r ''year'') ys) x"
      by simp
  qed
  have f: "filterByYears (add_calendar_columns ?pr) ys =
             Inr \<lparr>columns = columns df, rows = rows (add_calendar_columns ?pr)\<rparr>"
    using filterByYears_rows [OF year_in_columns_add_calendar_columns, of ?pr ys]
      filter_all [OF keep]
    by (simp add: accols)
  have len: "length (rows (add_calendar_columns ?pr)) = length (rows df)"
    by (simp add: rows_add_calendar_columns raw)
  show ?thesis
    by (simp add: reload_def dc f len)
qed


lemma assign_rows_dated:
  assumes "name \<noteq> ''period''" and "\<forall>(i, r) \<in> set (rows df). dated_in ys r"
  shows "\<forall>(i, r) \<in> set (rows (assign name f df)). dated_in ys r"
  using assms by (auto simp: rows_assign dated_in_def)

text \<open>
  Claim C8. Let the two tables come from the loader and let the script run to its
  end. If pandas reads the date text that the export writes for each displayed row
  back as the same date, then reloading the exported document with the loader's steps
  and filtering it to the same years succeeds and gives as many rows as the displayed
  table has, under the same columns.
\<close>

theorem export_reload_roundtrip:
  assumes ls: "derive_columns to_dt raw_s = Inr s" and lg: "derive_columns to_dt raw_g = Inr g"
    and rn: "run (script fixed corr repr rc yf q) (loaded s g) = Inr st"
    and dp: "get_var st ''display_df'' = Inr disp"
    and reads: "\<forall>(i, r) \<in> set (rows disp). \<forall>d. r ''period'' = Some (CDate d) \<longrightarrow>
                  to_dt (read_field ''period'' (str_date d)) = Some (CDate d)"
  shows "\<exists>out. reload to_dt read_field yf (to_csv repr disp) = Inr out \<and>
           length (rows out) = length (rows disp) \<and> set (columns out) = set (columns disp)"
proof -
  let ?q = "with_quarter"
  from derive_columns_shape [OF ls] obtain sp where
    sp: "s = add_calendar_columns sp" "''period'' \<in> set (columns sp)"
    by blast
  from derive_columns_shape [OF lg] obtain gp where
    gp: "g = add_calendar_columns gp" "''period'' \<in> set (columns gp)"
    by blast
  from run_script [OF rn] obtain fs fg where
    fs: "filterByYears s yf = Inr fs" and fg: "filterByYears g yf = Inr fg" and
    d: "get_var st ''display_df'' = displayed_table rc repr q (pd_concat (?q fs) fg)"
    by blast
  from filtered_rows_dated [OF fs [unfolded sp(1)]] have
    cfs: "columns fs = columns (add_calendar_columns sp)" and
    rfs: "\<forall>(i, r) \<in> set (rows fs). dated_in yf r"
    by simp_all
  from filtered_rows_dated [OF fg [unfolded gp(1)]] have
    cfg: "columns fg = columns (add_calendar_columns gp)" and
    rfg: "\<forall>(i, r) \<in> set (rows fg). dated_in yf r"
    by simp_all
  have sfs: "{''period'', ''month'', ''year'', ''dayofweek'', ''is_weekend''} \<subseteq> set (columns (?q fs))"
    using sp(2) by (auto simp: with_quarter_def columns_assign cfs columns_add_calendar_columns)
  have pfg: "''period'' \<in> set (columns fg)"
    using gp(2) by (simp add: cfg columns_add_calendar_columns)
  have rq: "\<forall>(i, r) \<in> set (rows (?q fs)). dated_in yf r"
    unfolding with_quarter_def by (rule assign_rows_dated [OF _ rfs]) simp
  have rc: "\<forall>(i, r) \<in> set (rows (pd_concat (?q fs) fg)). dated_in yf r"
    using sfs by (intro concat_rows_dated [OF _ pfg rq rfg]) simp
  have cc: "{''period'', ''month'', ''year'', ''dayofweek'', ''is_weekend''}
              \<subseteq> set (columns (pd_concat (?q fs) fg))"
    using sfs by (auto simp: pd_concat_def)
  from d dp have "displayed_table rc repr q (pd_concat (?q fs) fg) = Inr disp"
    by simp
  from displayed_table_shape [OF this] have
    cd: "columns disp = columns (pd_concat (?q fs) fg)" and
    rd: "set (rows disp) \<subseteq> set (rows (pd_concat (?q fs) fg))"
    by simp_all
  have c: "{''period'', ''month'', ''year'', ''dayofweek'', ''is_weekend''} \<subseteq> set (columns disp)"
    using cc by (simp only: cd)
  have r: "\<forall>(i, r) \<in> set (rows disp). dated_in yf r"
    using rc rd by blast
  from reload_exported
    [where to_dt = to_dt and read_field = read_field and repr = repr, OF c r reads]
  show ?thesis
    by auto
qed


lemma parse_ex_0105: "parse_iso_date ''2024-01-05'' = Some (Date 2024 1 5)"
  by (simp add: parse_iso_date_def digit_def valid_date_def days_in_month_def)

lemma derive_ex_brand: "derive_columns to_datetime_iso ex_raw_brand = Inr ex_brand"
proof -
  have "[''period'' \<mapsto> CStr ''2024-01-05'', ''ratio'' \<mapsto> CInt 50, ''period'' \<mapsto> CDate (Date 2024 1 5)]
          = [''period'' \<mapsto> CDate (Date 2024 1 5), ''ratio'' \<mapsto> CInt 50]"
    by (rule ext) simp
  then show ?thesis
    by (simp add: derive_columns_def parse_period_def ex_raw_brand_def ex_brand_def parse_ex_0105)
qed

lemma derive_ex_card: "derive_columns to_datetime_iso ex_raw_card = Inr ex_card"
proof -
  have "[''period'' \<mapsto> CStr ''2024-01-05'', ''ratio'' \<mapsto> CInt 20, ''period'' \<mapsto> CDate (Date 2024 1 5)]
          = [''period'' \<mapsto> CDate (Date 2024 1 5), ''ratio'' \<mapsto> CInt 20]"
    by (rule ext) simp
  then show ?thesis
    by (simp add: derive_columns_def parse_period_def ex_raw_card_def ex_card_def parse_ex_0105)
qed

lemma periods_ex_display:
  "\<forall>(i, r) \<in> set (rows ex_display). r ''period'' = Some (CDate (Date 2024 1 5))"
  by (simp add: ex_display_def pd_concat_def unify_dtypes_def with_quarter_def rows_assign
      ex_brand_def ex_card_def rows_add_calendar_columns widen_row_def upcast_def columns_assign
      add_calendar_columns_def)

lemma reads_back_ex:
  "to_datetime_iso (CStr (str_date (Date 2024 1 5))) = Some (CDate (Date 2024 1 5))"
proof -
  have "str_date (Date 2024 1 5) = ''2024-01-05''"
    by (simp add: str_date_def str_int_def digit_char_def zero_pad_def)
  then show ?thesis
    by (simp add: parse_ex_0105)
qed

theorem export_reload_roundtrip_witness:
  "\<exists>st out. derive_columns to_datetime_iso ex_raw_brand = Inr ex_brand \<and>
     derive_columns to_datetime_iso ex_raw_card = Inr ex_card \<and>
     run (script format_whole corrcoef_exact repr_whole re_compile_dots [2024, 2025] [])
       (loaded ex_brand ex_card) = Inr st \<and>
     get_var st ''display_df'' = Inr ex_display \<and>
     reload to_datetime_iso (\<lambda>c t. CStr t) [2024, 2025] (to_csv repr_whole ex_display) = Inr out \<and>
     length (rows out) = 2 \<and> set (columns out) = set (columns ex_display)"
proof -
  from run_ex_script obtain st where
    r: "run (script format_whole corrcoef_exact repr_whole re_compile_dots [2024, 2025] [])
           (loaded ex_brand ex_card) = Inr st"
    by blast
  from run_script [OF r] have d: "get_var st ''display_df'' = Inr ex_display"
    by (auto simp: filter_ex_brand filter_ex_card displayed_table_def ex_display_def)
  have b: "\<forall>(i, r) \<in> set (rows ex_display). \<forall>d. r ''period'' = Some (CDate d) \<longrightarrow>
             to_datetime_iso ((\<lambda>c t. CStr t) ''period'' (str_date d)) = Some (CDate d)"
    using periods_ex_display reads_back_ex by fastforce
  from export_reload_roundtrip
    [where read_field = "\<lambda>c t. CStr t" and repr = repr_whole,
      OF derive_ex_brand derive_ex_card r d b]
  obtain out where
    o: "reload to_datetime_iso (\<lambda>c t. CStr t) [2024, 2025] (to_csv repr_whole ex_display) = Inr out"
      "length (rows out) = length (rows ex_display)" "set (columns out) = set (columns ex_display)"
    by blast
  from o(2) have l: "length (rows out) = 2"
    by (simp add: length_rows_ex_display)
  show ?thesis
    by (rule exI [of _ st], rule exI [of _ out], intro conjI)
      (fact derive_ex_brand derive_ex_card r d o(1) l o(3))+
qed

end
